theory Spec2Isabelle
  imports Complex_Main
begin

section \<open>Python values used by the two extractors\<close>

text \<open>
  The repository holds two Python programs, \<^verbatim>\<open>thumbnail_extractor.py\<close> (the decode
  backend, on OpenCV) and \<^verbatim>\<open>thumbnail_extractor_ffmpeg.py\<close> (the process backend, on
  the ffprobe and ffmpeg executables). Both are embedded below, function by function.

  A Python \<^verbatim>\<open>float\<close> is a finite number, an infinity or a NaN. The finite ones are
  modelled as reals: every double is a real number, \<^verbatim>\<open>int(x)\<close> and the comparisons
  are exact on them, and the one float operation of the code that can round,
  \<^verbatim>\<open>duration - 1.0\<close>, is taken as the exact difference.
\<close>

datatype pyfloat = Fin real | PosInf | NegInf | NaN

text \<open>
  The exceptions the code can meet. All of them derive from \<^verbatim>\<open>Exception\<close>;
  \<^verbatim>\<open>JSONDecodeError\<close> derives from \<^verbatim>\<open>ValueError\<close>, \<^verbatim>\<open>FileNotFoundError\<close> from
  \<^verbatim>\<open>OSError\<close>. \<open>CalledProcessError\<close> carries the captured standard error.
\<close>

datatype exn =
    ValueError
  | JSONDecodeError
  | CalledProcessError string
  | FileNotFoundError
  | OSError
  | TypeError
  | KeyError
  | OverflowError
  | CvError

text \<open>\<^verbatim>\<open>int(x)\<close> on a float truncates toward zero; it raises on NaN and on infinities.\<close>

definition trunc :: "real \<Rightarrow> int" where
  "trunc r = (if 0 \<le> r then \<lfloor>r\<rfloor> else \<lceil>r\<rceil>)"

definition py_int :: "pyfloat \<Rightarrow> exn + int" where
  "py_int x =
     (case x of
        Fin r \<Rightarrow> Inr (trunc r)
      | PosInf \<Rightarrow> Inl OverflowError
      | NegInf \<Rightarrow> Inl OverflowError
      | NaN \<Rightarrow> Inl ValueError)"

text \<open>\<^verbatim>\<open>x == 0\<close> and \<^verbatim>\<open>x <= 0\<close> on a float: every comparison with NaN is false.\<close>

definition py_eq0 :: "pyfloat \<Rightarrow> bool" where
  "py_eq0 x = (case x of Fin r \<Rightarrow> r = 0 | _ \<Rightarrow> False)"

definition py_le0 :: "pyfloat \<Rightarrow> bool" where
  "py_le0 x = (case x of Fin r \<Rightarrow> r \<le> 0 | NegInf \<Rightarrow> True | _ \<Rightarrow> False)"

text \<open>\<^verbatim>\<open>x - 1.0\<close>, and \<^verbatim>\<open>max(0, y)\<close>, which returns \<open>y\<close> only when \<^verbatim>\<open>y > 0\<close> holds.\<close>

definition py_sub1 :: "pyfloat \<Rightarrow> pyfloat" where
  "py_sub1 x = (case x of Fin r \<Rightarrow> Fin (r - 1) | other \<Rightarrow> other)"

definition py_max0 :: "pyfloat \<Rightarrow> pyfloat" where
  "py_max0 y =
     (case y of
        Fin r \<Rightarrow> (if 0 < r then Fin r else Fin 0)
      | PosInf \<Rightarrow> PosInf
      | NegInf \<Rightarrow> Fin 0
      | NaN \<Rightarrow> Fin 0)"

subsection \<open>Strings\<close>

text \<open>
  Strings are byte lists. \<open>lower\<close> and \<open>upper\<close> change the case of the ASCII letters and
  leave every other character alone. That is what \<^verbatim>\<open>str.upper\<close> does on the constants of
  \<^verbatim>\<open>SUPPORTED_FORMATS\<close>, the only strings the code applies it to. \<^verbatim>\<open>str.lower\<close> is
  applied to strings from outside and knows all of Unicode (it maps the Kelvin sign to
  \<^verbatim>\<open>k\<close>): it is a parameter of the model, \<open>str_lower\<close> below, and \<open>lower\<close> is its
  value in the concrete worlds, whose strings are ASCII.
\<close>

definition lower_char :: "char \<Rightarrow> char" where
  "lower_char c =
     (case map_of (zip ''ABCDEFGHIJKLMNOPQRSTUVWXYZ'' ''abcdefghijklmnopqrstuvwxyz'') c of
        Some d \<Rightarrow> d
      | None \<Rightarrow> c)"

definition upper_char :: "char \<Rightarrow> char" where
  "upper_char c =
     (case map_of (zip ''abcdefghijklmnopqrstuvwxyz'' ''ABCDEFGHIJKLMNOPQRSTUVWXYZ'') c of
        Some d \<Rightarrow> d
      | None \<Rightarrow> c)"

definition lower :: "string \<Rightarrow> string" where
  "lower s = map lower_char s"

definition upper :: "string \<Rightarrow> string" where
  "upper s = map upper_char s"

definition endswith :: "string \<Rightarrow> string \<Rightarrow> bool" where
  "endswith s suf = (length suf \<le> length s \<and> drop (length s - length suf) s = suf)"

fun startswith :: "string \<Rightarrow> string \<Rightarrow> bool" where
  "startswith s [] = True"
| "startswith [] (c # cs) = False"
| "startswith (x # xs) (c # cs) = (x = c \<and> startswith xs cs)"

text \<open>\<^verbatim>\<open>sub in s\<close> on two strings: \<open>sub\<close> occurs in \<open>s\<close> as a contiguous run.\<close>

fun str_contains :: "string \<Rightarrow> string \<Rightarrow> bool" where
  "str_contains [] sub = (sub = [])"
| "str_contains (x # xs) sub = (startswith (x # xs) sub \<or> str_contains xs sub)"

text \<open>\<^verbatim>\<open>s.split(c)\<close>: the pieces of \<open>s\<close> between the occurrences of \<open>c\<close>.\<close>

fun split_on :: "char \<Rightarrow> string \<Rightarrow> string list" where
  "split_on c [] = [[]]"
| "split_on c (x # xs) =
     (if x = c then [] # split_on c xs
      else (case split_on c xs of
              [] \<Rightarrow> [[x]]
            | p # ps \<Rightarrow> (x # p) # ps))"

text \<open>\<^verbatim>\<open>s.rfind(c)\<close>: the index of the last occurrence, \<open>None\<close> for Python's \<open>-1\<close>.\<close>

definition rfind :: "char \<Rightarrow> string \<Rightarrow> nat option" where
  "rfind c s =
     (if c \<in> set s then Some (length s - 1 - length (takeWhile (\<lambda>x. x \<noteq> c) (rev s)))
      else None)"

subsection \<open>Paths\<close>

text \<open>
  A \<^verbatim>\<open>pathlib.Path\<close> in its POSIX flavour: whether it is rooted, and its components.
  \<open>PurePath\<close> is the constructor on a string: it splits at the slashes and drops the
  empty components and the single dots. \<open>joinpath\<close> is the operator \<^verbatim>\<open>/\<close> with a string
  on the right: a rooted right operand replaces the left one. \<open>child\<close> is the path a
  directory scan yields for an entry's name.
\<close>

datatype path = Path (anchored: bool) (parts: "string list")

definition PurePath :: "string \<Rightarrow> path" where
  "PurePath s =
     Path (startswith s ''/'')
          (filter (\<lambda>c. c \<noteq> [] \<and> c \<noteq> ''.'') (split_on (CHR ''/'') s))"

definition joinpath :: "path \<Rightarrow> string \<Rightarrow> path" where
  "joinpath p s =
     (let q = PurePath s
      in if anchored q then q else Path (anchored p) (parts p @ parts q))"

definition child :: "path \<Rightarrow> string \<Rightarrow> path" where
  "child p n = Path (anchored p) (parts p @ [n])"

definition path_name :: "path \<Rightarrow> string" where
  "path_name p = (if parts p = [] then [] else last (parts p))"

text \<open>
  \<^verbatim>\<open>suffix\<close> and \<^verbatim>\<open>stem\<close> (CPython up to 3.13): with \<open>i\<close> the last dot of the name, the
  suffix is \<^verbatim>\<open>name[i:]\<close> when \<^verbatim>\<open>0 < i < len(name) - 1\<close> and empty otherwise; the stem is
  the rest of the name.
\<close>

definition name_suffix :: "string \<Rightarrow> string" where
  "name_suffix n =
     (case rfind (CHR ''.'') n of
        Some i \<Rightarrow> (if 0 < i \<and> i < length n - 1 then drop i n else [])
      | None \<Rightarrow> [])"

definition name_stem :: "string \<Rightarrow> string" where
  "name_stem n =
     (case rfind (CHR ''.'') n of
        Some i \<Rightarrow> (if 0 < i \<and> i < length n - 1 then take i n else n)
      | None \<Rightarrow> n)"

definition path_suffix :: "path \<Rightarrow> string" where
  "path_suffix p = name_suffix (path_name p)"

definition path_stem :: "path \<Rightarrow> string" where
  "path_stem p = name_stem (path_name p)"

text \<open>
  A path lies inside a folder when it continues the folder's components by at least one
  more, none of them \<^verbatim>\<open>..\<close>.
\<close>

definition inside :: "path \<Rightarrow> path \<Rightarrow> bool" where
  "inside folder p =
     (anchored p = anchored folder \<and>
      length (parts folder) < length (parts p) \<and>
      take (length (parts folder)) (parts p) = parts folder \<and>
      ''..'' \<notin> set (drop (length (parts folder)) (parts p)))"

section \<open>The world outside the program\<close>

text \<open>
  What the file system, OpenCV, the two executables and the JSON parser answer is not
  code of the repository. It is a parameter of the model: a record of the answer each
  call gets, an exception included where the library can raise one. The answers do not
  change during one run.
\<close>

datatype json =
    JNull
  | JBool bool
  | JInt int
  | JFloat pyfloat
  | JStr string
  | JArr "json list"
  | JObj "(string \<times> json) list"

record world =
  str_lower :: "string \<Rightarrow> string"
  path_exists :: "path \<Rightarrow> exn + bool"
  is_dir :: "path \<Rightarrow> exn + bool"
  scandir :: "path \<Rightarrow> string list"
  glob_case_sensitive :: bool
  cap_isOpened :: "path \<Rightarrow> bool"
  cap_get_fps :: "path \<Rightarrow> exn + pyfloat"
  cap_get_frame_count :: "path \<Rightarrow> exn + pyfloat"
  cap_set_pos_frames :: "path \<Rightarrow> int \<Rightarrow> exn option"
  cap_read :: "path \<Rightarrow> int \<Rightarrow> exn + bool"
  imwrite :: "path \<Rightarrow> exn option"
  run_ffprobe :: "path \<Rightarrow> exn + string"
  json_loads :: "string \<Rightarrow> json option"
  float_of_str :: "string \<Rightarrow> pyfloat option"
  run_ffmpeg :: "pyfloat \<Rightarrow> path \<Rightarrow> int \<Rightarrow> path \<Rightarrow> exn option"
  exists_after_ffmpeg :: "path \<Rightarrow> exn + bool"

text \<open>
  \<^item> \<open>str_lower\<close>: \<^verbatim>\<open>str.lower\<close>.
  \<^item> \<open>path_exists\<close>, \<open>is_dir\<close>: \<^verbatim>\<open>Path.exists()\<close>, \<^verbatim>\<open>Path.is_dir()\<close>. Both answer
    \<open>False\<close> for a path that is not there, and both raise the \<open>OSError\<close> of the
    underlying \<^verbatim>\<open>stat\<close> when it is another one, such as a name that is too long or a
    directory that may not be searched.
  \<^item> \<open>scandir\<close>: the names of a directory's entries, in the order a scan yields them;
    \<open>glob_case_sensitive\<close>: whether \<^verbatim>\<open>Path.glob\<close> compares names with their case
    (it does on POSIX and does not on Windows).
  \<^item> \<open>cap_isOpened\<close>: \<^verbatim>\<open>cv2.VideoCapture(str(p)).isOpened()\<close>. The constructor does not
    raise: a file it cannot open gives a capture that is not opened.
  \<^item> \<open>cap_get_fps\<close>, \<open>cap_get_frame_count\<close>, \<open>cap_set_pos_frames\<close>, \<open>cap_read\<close>,
    \<open>imwrite\<close>: the calls inside the \<^verbatim>\<open>try\<close> block, each with the exception it may
    raise. \<open>cap_read p n\<close> is the flag \<^verbatim>\<open>ret\<close> of a read after a seek to frame \<open>n\<close>.
  \<^item> \<open>run_ffprobe\<close>: \<^verbatim>\<open>subprocess.run(..., check=True)\<close> on ffprobe: the standard output
    on exit status 0, \<open>CalledProcessError\<close> on another status, \<open>FileNotFoundError\<close> when
    there is no such executable.
  \<^item> \<open>json_loads\<close>: \<^verbatim>\<open>json.loads\<close>, \<open>None\<close> for \<open>JSONDecodeError\<close>; \<open>float_of_str\<close>:
    \<^verbatim>\<open>float(s)\<close> on a string, \<open>None\<close> for \<open>ValueError\<close>.
  \<^item> \<open>run_ffmpeg ss input q output\<close>: \<^verbatim>\<open>subprocess.run\<close> on ffmpeg, \<open>None\<close> when it
    returns; \<open>exists_after_ffmpeg\<close>: \<^verbatim>\<open>output_path.exists()\<close> after that run.
  \<^item> \<^verbatim>\<open>print\<close> is taken to succeed: the standard output accepts every message.
\<close>

subsection \<open>What a run does: printed messages and backend calls\<close>

datatype message =
    VideoNotFound path
  | UnsupportedFormat string
  | CouldNotOpen path
  | InvalidProperties string
  | CouldNotReadFrame string
  | SavedThumbnail path
  | ErrorProcessing string exn
  | ErrorGettingDuration exn
  | CouldNotDetermineDuration string
  | NotCreated string
  | FFmpegFailed string
  | Details string
  | FolderNotFound path
  | NotADirectory path
  | NoVideoFiles path
  | Found nat
  | OutputFolder path
  | Processing string

datatype imwrite_param = IMWRITE_PNG_COMPRESSION int | IMWRITE_JPEG_QUALITY int

datatype event =
    Print message
  | VideoCapture path bool
  | CapSet int
  | CapRead
  | Imwrite path imwrite_param
  | CapRelease
  | RunFFprobe path
  | RunFFmpeg pyfloat path int path

text \<open>
  \<open>VideoCapture p ok\<close> is the construction of a capture on \<open>p\<close>, with what \<open>isOpened\<close>
  answers; \<open>CapSet n\<close> the seek to frame \<open>n\<close>; \<open>RunFFprobe\<close> and \<open>RunFFmpeg\<close> one call of
  \<^verbatim>\<open>subprocess.run\<close>, which starts the process and waits for its end. A function of the
  model returns the events of its run, in order, and then its result: \<open>Inl e\<close> when the
  exception \<open>e\<close> leaves it, \<open>Inr v\<close> when it returns \<open>v\<close>.
\<close>

type_synonym 'a run = "event list \<times> (exn + 'a)"

definition backend_event :: "event \<Rightarrow> bool" where
  "backend_event ev = (case ev of Print m \<Rightarrow> False | _ \<Rightarrow> True)"

definition SUPPORTED_FORMATS :: "string list" where
  "SUPPORTED_FORMATS = [''.mp4'', ''.avi'', ''.mov'', ''.mkv'', ''.flv'', ''.wmv'', ''.webm'']"

section \<open>The decode backend: \<^verbatim>\<open>ThumbnailExtractor\<close>\<close>

record extractor =
  output_folder :: path
  image_format :: string
  file_extension :: string

text \<open>
  \<^verbatim>\<open>__init__\<close> (lines 19-32). The creation of the output folder is an effect on the file
  system that no claim reads; it is left out.
\<close>

definition ThumbnailExtractor :: "world \<Rightarrow> string \<Rightarrow> string \<Rightarrow> exn + extractor" where
  "ThumbnailExtractor w folder fmt =
     (let f = str_lower w fmt
      in if f \<notin> set [''jpeg'', ''png''] then Inl ValueError
         else Inr \<lparr>output_folder = PurePath folder, image_format = f,
                   file_extension = (if f = ''jpeg'' then ''jpg'' else ''png'')\<rparr>)"

text \<open>Line 73: \<^verbatim>\<open>target_frame = max(0, total_frames - int(fps))\<close>.\<close>

definition target_frame :: "int \<Rightarrow> int \<Rightarrow> int" where
  "target_frame total_frames int_fps = max 0 (total_frames - int_fps)"

text \<open>Lines 86-89: the name of the output file.\<close>

definition output_name_for :: "extractor \<Rightarrow> path \<Rightarrow> string option \<Rightarrow> string" where
  "output_name_for self video_path output_name =
     (case output_name of
        None \<Rightarrow> path_stem video_path @ ''_thumbnail.'' @ file_extension self
      | Some n \<Rightarrow>
          (if \<not> (endswith n ''.jpg'' \<or> endswith n ''.jpeg'' \<or> endswith n ''.png'')
           then n @ ''.'' @ file_extension self
           else n))"

text \<open>Lines 75-102: seek, read, name the output, write it.\<close>

definition seek_and_save ::
  "world \<Rightarrow> extractor \<Rightarrow> path \<Rightarrow> string option \<Rightarrow> int \<Rightarrow> bool run" where
  "seek_and_save w self video_path output_name tf =
     (case cap_set_pos_frames w video_path tf of
        Some e \<Rightarrow> ([CapSet tf], Inl e)
      | None \<Rightarrow>
     (case cap_read w video_path tf of
        Inl e \<Rightarrow> ([CapSet tf, CapRead], Inl e)
      | Inr ret \<Rightarrow>
          if \<not> ret
          then ([CapSet tf, CapRead, Print (CouldNotReadFrame (path_name video_path))],
                Inr False)
          else
            (let output_path =
                   joinpath (output_folder self) (output_name_for self video_path output_name);
                 param = (if image_format self = ''png'' then IMWRITE_PNG_COMPRESSION 9
                          else IMWRITE_JPEG_QUALITY 95)
             in case imwrite w output_path of
                  Some e \<Rightarrow> ([CapSet tf, CapRead, Imwrite output_path param], Inl e)
                | None \<Rightarrow>
                    ([CapSet tf, CapRead, Imwrite output_path param,
                      Print (SavedThumbnail output_path)], Inr True))))"

text \<open>Lines 63-102: the body of the \<^verbatim>\<open>try\<close> statement.\<close>

definition try_block :: "world \<Rightarrow> extractor \<Rightarrow> path \<Rightarrow> string option \<Rightarrow> bool run" where
  "try_block w self video_path output_name =
     (case cap_get_fps w video_path of
        Inl e \<Rightarrow> ([], Inl e)
      | Inr fps \<Rightarrow>
     (case cap_get_frame_count w video_path of
        Inl e \<Rightarrow> ([], Inl e)
      | Inr frame_count \<Rightarrow>
     (case py_int frame_count of
        Inl e \<Rightarrow> ([], Inl e)
      | Inr total_frames \<Rightarrow>
          if total_frames = 0 \<or> py_eq0 fps
          then ([Print (InvalidProperties (path_name video_path))], Inr False)
          else
            (case py_int fps of
               Inl e \<Rightarrow> ([], Inl e)
             | Inr int_fps \<Rightarrow>
                 seek_and_save w self video_path output_name
                   (target_frame total_frames int_fps)))))"

text \<open>
  \<^verbatim>\<open>extract_thumbnail\<close> (lines 34-109). The argument is the path after line 45,
  \<^verbatim>\<open>Path(video_path)\<close>: \<open>PurePath s\<close> for a string \<open>s\<close>, the path itself for a path.
  The test of line 47 stands before the \<^verbatim>\<open>try\<close> statement: an exception of
  \<^verbatim>\<open>exists()\<close> leaves the function. \<^verbatim>\<open>except Exception\<close> turns every exception of the
  body into \<open>False\<close>, and \<^verbatim>\<open>finally\<close> releases the capture after either outcome.
\<close>

definition extract_thumbnail :: "world \<Rightarrow> extractor \<Rightarrow> path \<Rightarrow> string option \<Rightarrow> bool run" where
  "extract_thumbnail w self video_path output_name =
     (case path_exists w video_path of
        Inl e \<Rightarrow> ([], Inl e)
      | Inr found \<Rightarrow>
          if \<not> found
          then ([Print (VideoNotFound video_path)], Inr False)
          else if str_lower w (path_suffix video_path) \<notin> set SUPPORTED_FORMATS
          then ([Print (UnsupportedFormat (path_name video_path))], Inr False)
          else if \<not> cap_isOpened w video_path
          then ([VideoCapture video_path False, Print (CouldNotOpen video_path)], Inr False)
          else
            (case try_block w self video_path output_name of
               (t, Inl e) \<Rightarrow>
                 (VideoCapture video_path True # t @
                    [Print (ErrorProcessing (path_name video_path) e), CapRelease],
                  Inr False)
             | (t, Inr r) \<Rightarrow> (VideoCapture video_path True # t @ [CapRelease], Inr r)))"

section \<open>The process backend: \<^verbatim>\<open>FFmpegThumbnailExtractor\<close>\<close>

record ffmpeg_extractor =
  ff_output_folder :: path

subsection \<open>The parsed output of ffprobe\<close>

text \<open>
  \<^verbatim>\<open>key in v\<close> and \<^verbatim>\<open>v[key]\<close> for a string key, and \<^verbatim>\<open>float(v)\<close>, on a value that
  \<^verbatim>\<open>json.loads\<close> returned. A \<open>JObj\<close> is a dict, read as an association list. An integer
  too large for a double makes \<^verbatim>\<open>float\<close> raise \<open>OverflowError\<close>.
\<close>

definition py_in :: "string \<Rightarrow> json \<Rightarrow> exn + bool" where
  "py_in k v =
     (case v of
        JObj kvs \<Rightarrow> Inr (map_of kvs k \<noteq> None)
      | JArr xs \<Rightarrow> Inr (JStr k \<in> set xs)
      | JStr s \<Rightarrow> Inr (str_contains s k)
      | _ \<Rightarrow> Inl TypeError)"

definition py_getitem :: "json \<Rightarrow> string \<Rightarrow> exn + json" where
  "py_getitem v k =
     (case v of
        JObj kvs \<Rightarrow> (case map_of kvs k of Some x \<Rightarrow> Inr x | None \<Rightarrow> Inl KeyError)
      | _ \<Rightarrow> Inl TypeError)"

definition py_float :: "world \<Rightarrow> json \<Rightarrow> exn + pyfloat" where
  "py_float w v =
     (case v of
        JStr s \<Rightarrow> (case float_of_str w s of Some x \<Rightarrow> Inr x | None \<Rightarrow> Inl ValueError)
      | JFloat x \<Rightarrow> Inr x
      | JInt i \<Rightarrow>
          (if \<bar>i\<bar> < 2 ^ 1024 - 2 ^ 970 then Inr (Fin (of_int i)) else Inl OverflowError)
      | JBool b \<Rightarrow> Inr (Fin (if b then 1 else 0))
      | _ \<Rightarrow> Inl TypeError)"

text \<open>Lines 68-71 of \<^verbatim>\<open>get_video_duration\<close>, on the parsed \<open>data\<close>.\<close>

definition duration_of :: "world \<Rightarrow> json \<Rightarrow> exn + pyfloat option" where
  "duration_of w data =
     (case py_in ''format'' data of
        Inl e \<Rightarrow> Inl e
      | Inr False \<Rightarrow> Inr None
      | Inr True \<Rightarrow>
     (case py_getitem data ''format'' of
        Inl e \<Rightarrow> Inl e
      | Inr fmt \<Rightarrow>
     (case py_in ''duration'' fmt of
        Inl e \<Rightarrow> Inl e
      | Inr False \<Rightarrow> Inr None
      | Inr True \<Rightarrow>
     (case py_getitem fmt ''duration'' of
        Inl e \<Rightarrow> Inl e
      | Inr d \<Rightarrow>
     (case py_float w d of
        Inl e \<Rightarrow> Inl e
      | Inr x \<Rightarrow> Inr (Some x))))))"

text \<open>
  Line 73: \<^verbatim>\<open>except (subprocess.CalledProcessError, json.JSONDecodeError, ValueError)\<close>.
\<close>

definition probe_handles :: "exn \<Rightarrow> bool" where
  "probe_handles e =
     (case e of
        CalledProcessError err \<Rightarrow> True
      | JSONDecodeError \<Rightarrow> True
      | ValueError \<Rightarrow> True
      | _ \<Rightarrow> False)"

text \<open>\<^verbatim>\<open>get_video_duration\<close> (lines 46-75): an exception the handler does not name leaves it.\<close>

definition get_video_duration :: "world \<Rightarrow> path \<Rightarrow> pyfloat option run" where
  "get_video_duration w video_path =
     (case (case run_ffprobe w video_path of
              Inl e \<Rightarrow> Inl e
            | Inr stdout \<Rightarrow>
                (case json_loads w stdout of
                   None \<Rightarrow> Inl JSONDecodeError
                 | Some data \<Rightarrow> duration_of w data)) of
        Inl e \<Rightarrow>
          (if probe_handles e
           then ([RunFFprobe video_path, Print (ErrorGettingDuration e)], Inr None)
           else ([RunFFprobe video_path], Inl e))
      | Inr r \<Rightarrow> ([RunFFprobe video_path], Inr r))"

text \<open>Line 108: \<^verbatim>\<open>timestamp = max(0, duration - 1.0)\<close>.\<close>

definition timestamp_of :: "pyfloat \<Rightarrow> pyfloat" where
  "timestamp_of duration = py_max0 (py_sub1 duration)"

text \<open>Lines 111-114: the name of the output file.\<close>

definition ff_output_name_for :: "path \<Rightarrow> string option \<Rightarrow> string" where
  "ff_output_name_for video_path output_name =
     (case output_name of
        None \<Rightarrow> path_stem video_path @ ''_thumbnail.jpg''
      | Some n \<Rightarrow>
          (if \<not> (endswith n ''.jpg'' \<or> endswith n ''.png'') then n @ ''.jpg'' else n))"

text \<open>
  Lines 118-155: the \<^verbatim>\<open>try\<close> statement with the call of ffmpeg, the test that the output
  exists, and the two handlers.
\<close>

definition ffmpeg_step ::
  "world \<Rightarrow> path \<Rightarrow> pyfloat \<Rightarrow> int \<Rightarrow> path \<Rightarrow> bool run" where
  "ffmpeg_step w video_path timestamp quality output_path =
     (case (case run_ffmpeg w timestamp video_path quality output_path of
              Some e \<Rightarrow> Inl e
            | None \<Rightarrow> exists_after_ffmpeg w output_path) of
        Inr created \<Rightarrow>
          (if created
           then ([RunFFmpeg timestamp video_path quality output_path,
                  Print (SavedThumbnail output_path)], Inr True)
           else ([RunFFmpeg timestamp video_path quality output_path,
                  Print (NotCreated (path_name video_path))], Inr False))
      | Inl (CalledProcessError err) \<Rightarrow>
          (RunFFmpeg timestamp video_path quality output_path #
           Print (FFmpegFailed (path_name video_path)) #
           (if err \<noteq> [] then [Print (Details (take 200 err))] else []),
           Inr False)
      | Inl e \<Rightarrow>
          ([RunFFmpeg timestamp video_path quality output_path,
            Print (ErrorProcessing (path_name video_path) e)], Inr False))"

text \<open>
  \<^verbatim>\<open>extract_thumbnail\<close> of the process backend (lines 77-155). The test of line 91 and
  the call of \<^verbatim>\<open>get_video_duration\<close> on line 100 stand outside every \<^verbatim>\<open>try\<close>.
\<close>

definition ff_extract_thumbnail ::
  "world \<Rightarrow> ffmpeg_extractor \<Rightarrow> path \<Rightarrow> string option \<Rightarrow> int \<Rightarrow> bool run" where
  "ff_extract_thumbnail w self video_path output_name quality =
     (case path_exists w video_path of
        Inl e \<Rightarrow> ([], Inl e)
      | Inr found \<Rightarrow>
          if \<not> found
          then ([Print (VideoNotFound video_path)], Inr False)
          else if str_lower w (path_suffix video_path) \<notin> set SUPPORTED_FORMATS
          then ([Print (UnsupportedFormat (path_name video_path))], Inr False)
          else
            (case get_video_duration w video_path of
               (t, Inl e) \<Rightarrow> (t, Inl e)
             | (t, Inr None) \<Rightarrow>
                 (t @ [Print (CouldNotDetermineDuration (path_name video_path))], Inr False)
             | (t, Inr (Some duration)) \<Rightarrow>
                 if py_le0 duration
                 then (t @ [Print (CouldNotDetermineDuration (path_name video_path))],
                       Inr False)
                 else
                   (let timestamp = timestamp_of duration;
                        output_path =
                          joinpath (ff_output_folder self)
                            (ff_output_name_for video_path output_name)
                    in case ffmpeg_step w video_path timestamp quality output_path of
                         (t', r) \<Rightarrow> (t @ t', r))))"

section \<open>Folder extraction\<close>

text \<open>
  \<^verbatim>\<open>process_folder\<close> is the same text in both classes. \<open>glob w folder ext\<close> is
  \<^verbatim>\<open>folder_path.glob(f"*{ext}")\<close>: the entries of the folder whose names end with
  \<open>ext\<close>, compared with or without their case as the platform does.
\<close>

definition glob :: "world \<Rightarrow> path \<Rightarrow> string \<Rightarrow> path list" where
  "glob w folder ext =
     map (child folder)
       (filter (\<lambda>n. if glob_case_sensitive w then endswith n ext
                     else endswith (str_lower w n) (str_lower w ext))
          (scandir w folder))"

text \<open>Lines 132-135 (177-181 in the process backend).\<close>

definition video_files :: "world \<Rightarrow> path \<Rightarrow> path list" where
  "video_files w folder_path =
     concat (map (\<lambda>ext. glob w folder_path ext @ glob w folder_path (upper ext))
               SUPPORTED_FORMATS)"

text \<open>
  Lines 144-154 (190-200): the loop over the files, with the two counters. An exception
  that leaves a single-file extraction leaves the loop.
\<close>

fun folder_loop :: "(path \<Rightarrow> bool run) \<Rightarrow> path list \<Rightarrow> int \<Rightarrow> int \<Rightarrow> (int \<times> int) run" where
  "folder_loop extract [] successful failed = ([], Inr (successful, failed))"
| "folder_loop extract (video_file # rest) successful failed =
     (case extract video_file of
        (t, Inl e) \<Rightarrow> (Print (Processing (path_name video_file)) # t, Inl e)
      | (t, Inr ok) \<Rightarrow>
          (case folder_loop extract rest
                  (if ok then successful + 1 else successful)
                  (if ok then failed else failed + 1) of
             (t', r) \<Rightarrow> (Print (Processing (path_name video_file)) # t @ t', r)))"

definition folder_run ::
  "world \<Rightarrow> (path \<Rightarrow> bool run) \<Rightarrow> path \<Rightarrow> path \<Rightarrow> (int \<times> int) run" where
  "folder_run w extract out_folder folder_path =
     (case path_exists w folder_path of
        Inl e \<Rightarrow> ([], Inl e)
      | Inr found \<Rightarrow>
          if \<not> found
          then ([Print (FolderNotFound folder_path)], Inr (0, 0))
          else
            (case is_dir w folder_path of
               Inl e \<Rightarrow> ([], Inl e)
             | Inr dir \<Rightarrow>
                 if \<not> dir
                 then ([Print (NotADirectory folder_path)], Inr (0, 0))
                 else
                   (let files = video_files w folder_path
                    in if files = []
                       then ([Print (NoVideoFiles folder_path)], Inr (0, 0))
                       else
                         (case folder_loop extract files 0 0 of
                            (t, r) \<Rightarrow>
                              (Print (Found (length files)) #
                               Print (OutputFolder out_folder) # t, r)))))"

text \<open>The two instances: each class calls its own \<^verbatim>\<open>extract_thumbnail\<close> with the defaults.\<close>

definition process_folder :: "world \<Rightarrow> extractor \<Rightarrow> path \<Rightarrow> (int \<times> int) run" where
  "process_folder w self folder_path =
     folder_run w (\<lambda>video_file. extract_thumbnail w self video_file None)
       (output_folder self) folder_path"

definition ff_process_folder :: "world \<Rightarrow> ffmpeg_extractor \<Rightarrow> path \<Rightarrow> (int \<times> int) run" where
  "ff_process_folder w self folder_path =
     folder_run w (\<lambda>video_file. ff_extract_thumbnail w self video_file None 2)
       (ff_output_folder self) folder_path"

section \<open>Reading a run\<close>

text \<open>The frames a run seeks to, and the files it writes or has ffmpeg write, in order.\<close>

fun seeks :: "event list \<Rightarrow> int list" where
  "seeks [] = []"
| "seeks (CapSet n # es) = n # seeks es"
| "seeks (ev # es) = seeks es"

fun writes :: "event list \<Rightarrow> path list" where
  "writes [] = []"
| "writes (Imwrite out param # es) = out # writes es"
| "writes (RunFFmpeg ss inp q out # es) = out # writes es"
| "writes (ev # es) = writes es"

text \<open>
  The backend resources a run still holds after its events: an opened capture is held
  until it is released. A call of \<^verbatim>\<open>subprocess.run\<close> holds nothing once it is over: it
  returns, or raises, after the process it started has ended.
\<close>

fun held :: "nat \<Rightarrow> event list \<Rightarrow> nat" where
  "held k [] = k"
| "held k (VideoCapture p ok # es) = held (if ok then Suc k else k) es"
| "held k (CapRelease # es) = held (k - 1) es"
| "held k (ev # es) = held k es"

definition is_run :: "event \<Rightarrow> bool" where
  "is_run ev = (case ev of RunFFprobe p \<Rightarrow> True | RunFFmpeg ss inp q out \<Rightarrow> True | _ \<Rightarrow> False)"

text \<open>The glob patterns of the enumeration, without their star, in the order of their use.\<close>

definition glob_patterns :: "string list" where
  "glob_patterns = concat (map (\<lambda>ext. [ext, upper ext]) SUPPORTED_FORMATS)"

text \<open>
  An output name that is a relative path with no \<^verbatim>\<open>..\<close> among its components.
\<close>

definition plain_relative :: "string \<Rightarrow> bool" where
  "plain_relative n = (\<not> startswith n ''/'' \<and> ''..'' \<notin> set (split_on (CHR ''/'') n))"

text \<open>
  The target frame as the specification writes it,
  \<^verbatim>\<open>max(0, total_frames - round(frame_rate))\<close>, with rounding to the nearest integer.
\<close>

definition spec_target_frame :: "int \<Rightarrow> real \<Rightarrow> int" where
  "spec_target_frame total_frames frame_rate = max 0 (total_frames - round frame_rate)"

subsection \<open>Concrete worlds\<close>

text \<open>
  A folder \<^verbatim>\<open>videos\<close> with four videos and a text file. Every video has 300 frames at
  29.97 frames per second and lasts 10.01 seconds, but \<^verbatim>\<open>bad.mkv\<close> is corrupt: OpenCV
  does not open it and ffprobe exits with an error on it.
\<close>

definition videos :: path where
  "videos = PurePath ''videos''"

definition demo_world :: world where
  \<open>demo_world =
     \<lparr>str_lower = lower,
      path_exists = (\<lambda>p. Inr (p = videos \<or>
          p \<in> set (map (child videos) [''a.mp4'', ''b.avi'', ''c.MOV'', ''bad.mkv'', ''notes.txt'']))),
      is_dir = (\<lambda>p. Inr (p = videos)),
      scandir = (\<lambda>p. if p = videos
                       then [''a.mp4'', ''b.avi'', ''c.MOV'', ''bad.mkv'', ''notes.txt'']
                       else []),
      glob_case_sensitive = True,
      cap_isOpened = (\<lambda>p. path_name p \<noteq> ''bad.mkv''),
      cap_get_fps = (\<lambda>p. Inr (Fin (2997 / 100))),
      cap_get_frame_count = (\<lambda>p. Inr (Fin 300)),
      cap_set_pos_frames = (\<lambda>p n. None),
      cap_read = (\<lambda>p n. Inr True),
      imwrite = (\<lambda>p. None),
      run_ffprobe = (\<lambda>p. if path_name p = ''bad.mkv''
                           then Inl (CalledProcessError ''moov atom not found'')
                           else Inr ''{"format": {"duration": "10.010000"}}''),
      json_loads = (\<lambda>s. Some (JObj [(''format'', JObj [(''duration'', JStr ''10.010000'')])])),
      float_of_str = (\<lambda>s. Some (Fin (1001 / 100))),
      run_ffmpeg = (\<lambda>ss inp q out. None),
      exists_after_ffmpeg = (\<lambda>p. Inr True)\<rparr>\<close>

definition demo_extractor :: extractor where
  "demo_extractor =
     \<lparr>output_folder = PurePath ''thumbnails'', image_format = ''jpeg'',
      file_extension = ''jpg''\<rparr>"

definition demo_ffmpeg_extractor :: ffmpeg_extractor where
  "demo_ffmpeg_extractor = \<lparr>ff_output_folder = PurePath ''thumbnails''\<rparr>"

text \<open>The same folder where ffprobe is not installed.\<close>

definition no_ffprobe_world :: world where
  "no_ffprobe_world = demo_world\<lparr>run_ffprobe := (\<lambda>p. Inl FileNotFoundError)\<rparr>"

text \<open>
  The same folder where, as on Linux, \<^verbatim>\<open>stat\<close> refuses a name of more than 255 bytes, so
  that \<^verbatim>\<open>exists()\<close> raises on it; and a path with such a name, which is not there.
\<close>

definition long_name_world :: world where
  "long_name_world =
     demo_world\<lparr>path_exists := (\<lambda>p. if 255 < length (path_name p) then Inl OSError
                                      else path_exists demo_world p)\<rparr>"

definition long_name :: path where
  "long_name = child videos (replicate 300 (CHR ''a'') @ ''.mp4'')"

text \<open>
  The same folder where the output of ffprobe for \<^verbatim>\<open>a.mp4\<close>, and for no other file, carries
  a duration that is no string.
\<close>

definition odd_probe_world :: world where
  \<open>odd_probe_world =
     demo_world\<lparr>run_ffprobe := (\<lambda>p. if path_name p = ''a.mp4''
                                      then Inr ''{"format": {"duration": null}}''
                                      else run_ffprobe demo_world p),
                 json_loads := (\<lambda>s. if s = ''{"format": {"duration": null}}''
                                     then Some (JObj [(''format'', JObj [(''duration'', JNull)])])
                                     else json_loads demo_world s)\<rparr>\<close>

text \<open>The same folder where reading a frame raises an OpenCV error.\<close>

definition read_error_world :: world where
  "read_error_world = demo_world\<lparr>cap_read := (\<lambda>p n. Inl CvError)\<rparr>"

text \<open>
  A folder that holds the one video \<^verbatim>\<open>a.mp4\<close>, on a platform whose \<^verbatim>\<open>Path.glob\<close> ignores
  case, as on Windows.
\<close>

definition caseless_world :: world where
  "caseless_world =
     demo_world\<lparr>scandir := (\<lambda>p. if p = videos then [''a.mp4''] else []),
                 glob_case_sensitive := False\<rparr>"

text \<open>A clip of half a second: 15 frames at 30 frames per second.\<close>

definition short_world :: world where
  "short_world =
     demo_world\<lparr>cap_get_fps := (\<lambda>p. Inr (Fin 30)),
                 cap_get_frame_count := (\<lambda>p. Inr (Fin 15)),
                 float_of_str := (\<lambda>s. Some (Fin (1 / 2)))\<rparr>"

section \<open>Properties\<close>

subsection \<open>Lemmas on runs\<close>

lemma seeks_append: "seeks (a @ b) = seeks a @ seeks b"
  by (induction a rule: seeks.induct) simp_all

lemma writes_append: "writes (a @ b) = writes a @ writes b"
  by (induction a rule: writes.induct) simp_all

lemma held_append: "held k (a @ b) = held (held k a) b"
  by (induction k a rule: held.induct) simp_all

lemma seeks_seek_and_save: "seeks (fst (seek_and_save w self p n tf)) = [tf]"
  by (simp add: seek_and_save_def Let_def split: option.splits sum.splits)

lemma held_seek_and_save: "held k (fst (seek_and_save w self p n tf)) = k"
  by (simp add: seek_and_save_def Let_def split: option.splits sum.splits)

lemma held_try_block: "held k (fst (try_block w self p n)) = k"
  by (simp add: try_block_def held_seek_and_save split: sum.splits)

lemma seek_and_save_writes:
  "seek_and_save w self p n tf = (t, Inr True) \<Longrightarrow>
     writes t = [joinpath (output_folder self) (output_name_for self p n)]"
  by (auto simp: seek_and_save_def Let_def split: option.splits sum.splits if_splits)

lemma try_block_writes:
  "try_block w self p n = (t, Inr True) \<Longrightarrow>
     writes t = [joinpath (output_folder self) (output_name_for self p n)]"
  by (auto simp: try_block_def split: sum.splits if_splits dest: seek_and_save_writes)

lemma extract_thumbnail_writes:
  assumes "snd (extract_thumbnail w self p n) = Inr True"
  shows "writes (fst (extract_thumbnail w self p n))
           = [joinpath (output_folder self) (output_name_for self p n)]"
proof -
  obtain t r where tb: "try_block w self p n = (t, r)"
    by (cases "try_block w self p n")
  show ?thesis
    using assms tb try_block_writes[of w self p n t]
    by (cases r) (auto simp: extract_thumbnail_def writes_append split: if_splits sum.splits)
qed

lemma extract_thumbnail_returns:
  "path_exists w p = Inr found \<Longrightarrow> \<exists>b. snd (extract_thumbnail w self p n) = Inr b"
  by (cases "try_block w self p n") (auto simp: extract_thumbnail_def split: sum.splits)

text \<open>The process backend.\<close>

lemma ffmpeg_step_runs:
  "filter is_run (fst (ffmpeg_step w p ts q out)) = [RunFFmpeg ts p q out]"
  by (simp add: ffmpeg_step_def is_run_def split: option.splits sum.splits exn.splits)

lemma ffmpeg_step_result:
  "snd (ffmpeg_step w p ts q out)
     = Inr (run_ffmpeg w ts p q out = None \<and> exists_after_ffmpeg w out = Inr True)"
  by (auto simp: ffmpeg_step_def split: option.splits sum.splits exn.splits)

lemma ffmpeg_step_returns: "ffmpeg_step w p ts q out = (t, r) \<Longrightarrow> \<exists>b. r = Inr b"
  using ffmpeg_step_result[of w p ts q out] by simp

lemma ffmpeg_step_writes: "ffmpeg_step w p ts q out = (t, r) \<Longrightarrow> writes t = [out]"
  by (auto simp: ffmpeg_step_def split: option.splits sum.splits exn.splits if_splits)

lemma ffmpeg_step_events:
  "ffmpeg_step w p ts q out = (t, r) \<Longrightarrow> ev \<in> set t \<Longrightarrow> backend_event ev \<Longrightarrow> is_run ev"
  by (auto simp: ffmpeg_step_def is_run_def backend_event_def
      split: option.splits sum.splits exn.splits if_splits)

lemma get_video_duration_trace:
  "get_video_duration w p = (t, Inr (Some x)) \<Longrightarrow> t = [RunFFprobe p]"
  by (auto simp: get_video_duration_def split: sum.splits option.splits if_splits)

lemma get_video_duration_writes: "get_video_duration w p = (t, r) \<Longrightarrow> writes t = []"
  by (auto simp: get_video_duration_def split: option.splits sum.splits if_splits)

lemma get_video_duration_events:
  "get_video_duration w p = (t, r) \<Longrightarrow> ev \<in> set t \<Longrightarrow> backend_event ev \<Longrightarrow> is_run ev"
  by (auto simp: get_video_duration_def is_run_def backend_event_def
      split: option.splits sum.splits if_splits)

lemma ff_extract_events:
  assumes "ev \<in> set (fst (ff_extract_thumbnail w self p n q))" and "backend_event ev"
  shows "is_run ev"
proof -
  obtain t r where gd: "get_video_duration w p = (t, r)"
    by (cases "get_video_duration w p")
  have t: "ev \<in> set t \<Longrightarrow> is_run ev"
    using get_video_duration_events[OF gd] assms(2) by simp
  have s: "ffmpeg_step w p ts q out = (t', r') \<Longrightarrow> ev \<in> set t' \<Longrightarrow> is_run ev"
    for ts out t' r'
    using ffmpeg_step_events assms(2) by blast
  have nb: "ev \<noteq> Print m" for m
    using assms(2) by (auto simp: backend_event_def)
  show ?thesis
    using assms(1) t s nb
    by (auto simp: ff_extract_thumbnail_def gd Let_def
        split: if_splits sum.splits option.splits prod.splits)
qed

lemma held_runs:
  "(\<And>ev. ev \<in> set t \<Longrightarrow> backend_event ev \<Longrightarrow> is_run ev) \<Longrightarrow> held k t = k"
proof (induction k t rule: held.induct)
  case (2 k p ok es)
  from 2(2)[of "VideoCapture p ok"] show ?case
    by (simp add: backend_event_def is_run_def)
next
  case (3 k es)
  from 3(2)[of CapRelease] show ?case
    by (simp add: backend_event_def is_run_def)
qed simp_all

lemma ff_extract_thumbnail_writes:
  assumes "snd (ff_extract_thumbnail w self p n q) = Inr True"
  shows "writes (fst (ff_extract_thumbnail w self p n q))
           = [joinpath (ff_output_folder self) (ff_output_name_for p n)]"
proof -
  obtain t r where gd: "get_video_duration w p = (t, r)"
    by (cases "get_video_duration w p")
  have t: "writes t = []"
    using get_video_duration_writes[OF gd] .
  show ?thesis
    using assms t
    by (auto simp: ff_extract_thumbnail_def gd Let_def writes_append
        split: if_splits sum.splits option.splits prod.splits dest: ffmpeg_step_writes)
qed

lemma ff_extract_thumbnail_returns:
  assumes "path_exists w p = Inr found" and "snd (get_video_duration w p) = Inr r"
  shows "\<exists>b. snd (ff_extract_thumbnail w self p n q) = Inr b"
  using assms
  by (cases "get_video_duration w p")
     (auto simp: ff_extract_thumbnail_def Let_def split: option.splits prod.splits
        dest: ffmpeg_step_returns)

subsection \<open>Lemmas on the folder loop\<close>

lemma folder_loop_returns:
  assumes "\<forall>v \<in> set fs. \<exists>b. snd (ex v) = Inr b"
  shows "folder_loop ex fs s f =
           (concat (map (\<lambda>v. Print (Processing (path_name v)) # fst (ex v)) fs),
            Inr (s + int (length (filter (\<lambda>v. snd (ex v) = Inr True) fs)),
                 f + int (length (filter (\<lambda>v. snd (ex v) = Inr False) fs))))"
  using assms
proof (induction fs arbitrary: s f)
  case Nil
  then show ?case by simp
next
  case (Cons v fs)
  then obtain b where b: "snd (ex v) = Inr b"
    by auto
  then obtain t where t: "ex v = (t, Inr b)"
    by (cases "ex v") simp
  have ih: "folder_loop ex fs s' f' =
           (concat (map (\<lambda>v. Print (Processing (path_name v)) # fst (ex v)) fs),
            Inr (s' + int (length (filter (\<lambda>v. snd (ex v) = Inr True) fs)),
                 f' + int (length (filter (\<lambda>v. snd (ex v) = Inr False) fs))))" for s' f'
    using Cons by simp
  show ?case
    by (cases b) (simp_all add: t ih)
qed

lemma folder_loop_sum:
  "folder_loop ex fs s f = (t, Inr (s', f')) \<Longrightarrow>
     s' + f' = s + f + int (length fs) \<and> s \<le> s' \<and> f \<le> f'"
proof (induction fs arbitrary: s f t)
  case Nil
  then show ?case by simp
next
  case (Cons v fs)
  obtain tv rv where ev: "ex v = (tv, rv)"
    by (cases "ex v")
  show ?case
  proof (cases rv)
    case (Inl e)
    then show ?thesis
      using Cons.prems ev by simp
  next
    case (Inr ok)
    obtain t2 r2 where rest:
      "folder_loop ex fs (if ok then s + 1 else s) (if ok then f else f + 1) = (t2, r2)"
      by (cases "folder_loop ex fs (if ok then s + 1 else s) (if ok then f else f + 1)")
    then have "r2 = Inr (s', f')"
      using Cons.prems ev Inr by simp
    then have "s' + f' = (if ok then s + 1 else s) + (if ok then f else f + 1)
                  + int (length fs) \<and>
       (if ok then s + 1 else s) \<le> s' \<and> (if ok then f else f + 1) \<le> f'"
      using Cons.IH rest by blast
    then show ?thesis
      by (simp split: if_splits)
  qed
qed

lemma backend_events_of_loop:
  "filter backend_event (concat (map (\<lambda>v. Print (h v) # g v) fs))
     = concat (map (\<lambda>v. filter backend_event (g v)) fs)"
  by (induction fs) (simp_all add: backend_event_def)

lemma folder_run_returns:
  assumes "path_exists w d = Inr True" and "is_dir w d = Inr True"
    and "\<forall>v \<in> set (video_files w d). \<exists>b. snd (ex v) = Inr b"
  shows "snd (folder_run w ex out d) =
           Inr (int (length (filter (\<lambda>v. snd (ex v) = Inr True) (video_files w d))),
                int (length (filter (\<lambda>v. snd (ex v) = Inr False) (video_files w d))))"
    and "filter backend_event (fst (folder_run w ex out d)) =
           concat (map (\<lambda>v. filter backend_event (fst (ex v))) (video_files w d))"
  using assms
  by (simp_all add: folder_run_def Let_def folder_loop_returns backend_events_of_loop
      backend_event_def)

lemma folder_run_sum:
  assumes "path_exists w d = Inr True" and "is_dir w d = Inr True"
    and "snd (folder_run w ex out d) = Inr (s, f)"
  shows "s + f = int (length (video_files w d)) \<and> 0 \<le> s \<and> 0 \<le> f"
proof (cases "video_files w d = []")
  case True
  then show ?thesis
    using assms by (simp add: folder_run_def)
next
  case False
  obtain t r where l: "folder_loop ex (video_files w d) 0 0 = (t, r)"
    by (cases "folder_loop ex (video_files w d) 0 0")
  then have "r = Inr (s, f)"
    using assms False by (simp add: folder_run_def Let_def)
  then show ?thesis
    using folder_loop_sum[of ex "video_files w d" 0 0 t s f] l by simp
qed

lemma folder_loop_reaches:
  assumes "\<forall>u \<in> set pre. \<exists>b. snd (ex u) = Inr b"
  shows "\<exists>t1 t2. fst (folder_loop ex (pre @ v # post) s f)
           = t1 @ (Print (Processing (path_name v)) # fst (ex v)) @ t2"
  using assms
proof (induction pre arbitrary: s f)
  case Nil
  obtain t r where ev: "ex v = (t, r)"
    by (cases "ex v")
  show ?case
  proof (cases r)
    case (Inl e)
    then have "fst (folder_loop ex ([] @ v # post) s f)
        = [] @ (Print (Processing (path_name v)) # fst (ex v)) @ []"
      using ev by simp
    then show ?thesis by blast
  next
    case (Inr ok)
    obtain t' r' where rest:
      "folder_loop ex post (if ok then s + 1 else s) (if ok then f else f + 1) = (t', r')"
      by (cases "folder_loop ex post (if ok then s + 1 else s) (if ok then f else f + 1)")
    have "fst (folder_loop ex ([] @ v # post) s f)
        = [] @ (Print (Processing (path_name v)) # fst (ex v)) @ t'"
      using ev Inr rest by simp
    then show ?thesis by blast
  qed
next
  case (Cons u pre)
  then obtain b where b: "snd (ex u) = Inr b"
    by auto
  then obtain tu where tu: "ex u = (tu, Inr b)"
    by (cases "ex u") simp
  let ?s = "if b then s + 1 else s" and ?f = "if b then f else f + 1"
  obtain t1 t2 where ih: "fst (folder_loop ex (pre @ v # post) ?s ?f)
      = t1 @ (Print (Processing (path_name v)) # fst (ex v)) @ t2"
    using Cons.IH[of ?s ?f] Cons.prems by auto
  obtain t' r' where rest: "folder_loop ex (pre @ v # post) ?s ?f = (t', r')"
    by (cases "folder_loop ex (pre @ v # post) ?s ?f")
  have "fst (folder_loop ex ((u # pre) @ v # post) s f)
      = (Print (Processing (path_name u)) # tu @ t1)
          @ (Print (Processing (path_name v)) # fst (ex v)) @ t2"
    using tu rest ih by simp
  then show ?case by blast
qed

lemma folder_run_reaches:
  assumes "path_exists w d = Inr True" and "is_dir w d = Inr True"
    and "video_files w d = pre @ v # post"
    and "\<forall>u \<in> set pre. \<exists>b. snd (ex u) = Inr b"
  shows "\<exists>t1 t2. fst (folder_run w ex out d) = t1 @ fst (ex v) @ t2"
proof -
  obtain t1 t2 where l: "fst (folder_loop ex (pre @ v # post) 0 0)
      = t1 @ (Print (Processing (path_name v)) # fst (ex v)) @ t2"
    using folder_loop_reaches[OF assms(4)] by blast
  obtain t r where lr: "folder_loop ex (pre @ v # post) 0 0 = (t, r)"
    by (cases "folder_loop ex (pre @ v # post) 0 0")
  have "fst (folder_run w ex out d)
      = (Print (Found (length (video_files w d))) # Print (OutputFolder out) # t1 @
           [Print (Processing (path_name v))]) @ fst (ex v) @ t2"
    using assms(1,2,3) l lr by (simp add: folder_run_def Let_def)
  then show ?thesis by blast
qed

subsection \<open>Lemmas on the enumeration\<close>

text \<open>
  With a glob that compares case, no pattern matches a name that another pattern
  matches, so the enumeration of a folder with distinct entries has no duplicates.
\<close>

lemma endswith_both:
  assumes "endswith n a" and "endswith n b" and "length a \<le> length b"
  shows "endswith b a"
proof -
  have a: "a = drop (length n - length a) n" and b: "b = drop (length n - length b) n"
    and la: "length a \<le> length n" and lb: "length b \<le> length n"
    using assms by (simp_all add: endswith_def)
  have "drop (length b - length a) b = drop (length b - length a + (length n - length b)) n"
    by (subst b) simp
  also have "length b - length a + (length n - length b) = length n - length a"
    using assms(3) lb by simp
  finally show ?thesis
    using a assms(3) by (simp add: endswith_def)
qed

lemma glob_patterns_value: "glob_patterns = [''.mp4'', ''.MP4'', ''.avi'', ''.AVI'', ''.mov'', ''.MOV'', ''.mkv'', ''.MKV'', ''.flv'', ''.FLV'', ''.wmv'', ''.WMV'', ''.webm'', ''.WEBM'']"
  by (simp add: glob_patterns_def SUPPORTED_FORMATS_def upper_def upper_char_def)

lemma glob_patterns_distinct: "distinct glob_patterns"
  unfolding glob_patterns_value by simp

lemma glob_patterns_exclusive:
  "\<forall>a \<in> set glob_patterns. \<forall>b \<in> set glob_patterns. a \<noteq> b \<longrightarrow> \<not> endswith b a"
  unfolding glob_patterns_value by (simp add: endswith_def)

lemma concat_pairs:
  "concat (map (\<lambda>x. g x @ g (u x)) xs) = concat (map g (concat (map (\<lambda>x. [x, u x]) xs)))"
  by (induction xs) simp_all

lemma video_files_by_pattern:
  "video_files w d = concat (map (glob w d) glob_patterns)"
  unfolding video_files_def glob_patterns_def by (rule concat_pairs)

lemma distinct_concat_filters:
  assumes "distinct names" and "inj f" and "distinct es"
    and excl: "\<And>a b n. a \<in> set es \<Longrightarrow> b \<in> set es \<Longrightarrow> a \<noteq> b \<Longrightarrow> P a n \<Longrightarrow> P b n \<Longrightarrow> False"
  shows "distinct (concat (map (\<lambda>e. map f (filter (P e) names)) es))"
  using assms(3) excl
proof (induction es)
  case Nil
  then show ?case by simp
next
  case (Cons e es)
  have d: "distinct (map f (filter (P e) names))"
    using assms(1,2) by (simp add: distinct_map inj_on_def inj_def)
  have ih: "distinct (concat (map (\<lambda>e. map f (filter (P e) names)) es))"
  proof (rule Cons.IH)
    show "distinct es" using Cons.prems(1) by simp
    show "\<And>a b n. a \<in> set es \<Longrightarrow> b \<in> set es \<Longrightarrow> a \<noteq> b \<Longrightarrow> P a n \<Longrightarrow> P b n \<Longrightarrow> False"
      using Cons.prems(2)[of _ _ _] by (meson list.set_intros(2))
  qed
  have disj: "x \<notin> set (concat (map (\<lambda>e. map f (filter (P e) names)) es))"
    if x1: "x \<in> set (map f (filter (P e) names))" for x
  proof
    assume x2: "x \<in> set (concat (map (\<lambda>e. map f (filter (P e) names)) es))"
    from x1 obtain n where n: "x = f n" "P e n"
      by (auto simp: image_iff)
    from x2 obtain e' where e': "e' \<in> set es" "x \<in> set (map f (filter (P e') names))"
      by (auto simp: set_concat)
    then obtain m where m: "x = f m" "P e' m"
      by (auto simp: image_iff)
    have "m = n"
      using n(1) m(1) assms(2) by (simp add: inj_def)
    moreover have "e \<noteq> e'"
      using Cons.prems(1) e'(1) by auto
    moreover have "e \<in> set (e # es)" "e' \<in> set (e # es)"
      using e'(1) by simp_all
    ultimately show False
      using Cons.prems(2)[of e e' n] n(2) m(2) by blast
  qed
  have "set (map f (filter (P e) names)) \<inter>
      set (concat (map (\<lambda>e. map f (filter (P e) names)) es)) = {}"
    using disj by blast
  then show ?case
    using d ih by (simp del: set_map set_filter set_concat)
qed

lemma video_files_distinct:
  assumes "glob_case_sensitive w" and "distinct (scandir w d)"
  shows "distinct (video_files w d)"
proof -
  have inj: "inj (child d)"
    by (simp add: inj_def child_def)
  have excl: False
    if ab: "a \<in> set glob_patterns" "b \<in> set glob_patterns" "a \<noteq> b"
      and e: "endswith n a" "endswith n b" for a b n
  proof (cases "length a \<le> length b")
    case True
    then have "endswith b a"
      by (rule endswith_both[OF e])
    then show False
      using glob_patterns_exclusive[rule_format, OF ab(1) ab(2) ab(3)] by simp
  next
    case False
    then have "length b \<le> length a"
      by simp
    then have "endswith a b"
      by (rule endswith_both[OF e(2) e(1)])
    then show False
      using glob_patterns_exclusive[rule_format, OF ab(2) ab(1)] ab(3) by simp
  qed
  have g: "glob w d e = map (child d) (filter (\<lambda>n. endswith n e) (scandir w d))" for e
    using assms(1) by (simp add: glob_def)
  have "distinct (concat (map (\<lambda>e. map (child d) (filter (\<lambda>n. endswith n e) (scandir w d)))
      glob_patterns))"
  proof (rule distinct_concat_filters[where P = "\<lambda>e n. endswith n e"])
    show "distinct (scandir w d)" by (rule assms(2))
    show "inj (child d)" by (rule inj)
    show "distinct glob_patterns" by (rule glob_patterns_distinct)
    show "\<And>a b n. a \<in> set glob_patterns \<Longrightarrow> b \<in> set glob_patterns \<Longrightarrow> a \<noteq> b \<Longrightarrow>
        endswith n a \<Longrightarrow> endswith n b \<Longrightarrow> False"
      by (rule excl)
  qed
  moreover have "glob w d = (\<lambda>e. map (child d) (filter (\<lambda>n. endswith n e) (scandir w d)))"
    by (rule ext) (rule g)
  ultimately show ?thesis
    by (simp only: video_files_by_pattern)
qed

subsection \<open>Lemmas on paths and output names\<close>

lemma split_on_nonempty: "split_on c s \<noteq> []"
  by (induction s) (auto split: list.splits)

lemma split_on_no_sep: "c \<notin> set s \<Longrightarrow> split_on c s = [s]"
  by (induction s) auto

lemma split_on_pieces: "x \<in> set (split_on c s) \<Longrightarrow> c \<notin> set x"
proof (induction s arbitrary: x)
  case Nil
  then show ?case by simp
next
  case (Cons a s)
  show ?case
  proof (cases "a = c")
    case True
    then show ?thesis using Cons by auto
  next
    case False
    obtain p ps where ps: "split_on c s = p # ps"
      using split_on_nonempty[of c s] by (cases "split_on c s") auto
    then have "x = a # p \<or> x \<in> set ps"
      using Cons.prems False by simp
    then show ?thesis
      using Cons.IH[of p] Cons.IH[of x] ps False by auto
  qed
qed

lemma split_on_append:
  "c \<notin> set b \<Longrightarrow>
     split_on c (a @ b) = butlast (split_on c a) @ [last (split_on c a) @ b]"
proof (induction a)
  case Nil
  then show ?case by (simp add: split_on_no_sep)
next
  case (Cons x a)
  obtain p ps where ps: "split_on c a = p # ps"
    using split_on_nonempty[of c a] by (cases "split_on c a") auto
  show ?case
    using Cons ps split_on_nonempty[of c a] by (auto split: list.splits)
qed

lemma startswith_slash: "startswith s ''/'' \<longleftrightarrow> s \<noteq> [] \<and> hd s = CHR ''/''"
  by (cases s) auto

text \<open>The components of a name that ends with a slash-free extension of three or more characters.\<close>

lemma parts_with_extension:
  assumes "CHR ''/'' \<notin> set e" and "3 \<le> length e"
  shows "parts (PurePath (m @ e)) =
           filter (\<lambda>c. c \<noteq> [] \<and> c \<noteq> ''.'') (butlast (split_on (CHR ''/'') m)) @
           [last (split_on (CHR ''/'') m) @ e]"
proof -
  have "last (split_on (CHR ''/'') m) @ e \<noteq> []" "last (split_on (CHR ''/'') m) @ e \<noteq> ''.''"
    using assms(2) by (auto simp: append_eq_Cons_conv)
  then show ?thesis
    by (simp add: PurePath_def split_on_append[OF assms(1)])
qed

lemma inside_joinpath:
  assumes "CHR ''/'' \<notin> set e" and "3 \<le> length e"
    and "\<not> startswith (m @ e) ''/''"
    and "''..'' \<notin> set (butlast (split_on (CHR ''/'') m))"
  shows "inside folder (joinpath folder (m @ e))"
proof -
  have "last (split_on (CHR ''/'') m) @ e \<noteq> ''..''"
    using assms(2) by (auto simp: append_eq_Cons_conv)
  then show ?thesis
    using assms(3,4)
    by (simp add: inside_def joinpath_def Let_def parts_with_extension[OF assms(1,2)])
       (simp add: PurePath_def)
qed

lemma inside_joinpath_appended:
  assumes "plain_relative n" and "CHR ''/'' \<notin> set e" and "3 \<le> length e" and "hd e \<noteq> CHR ''/''"
  shows "inside folder (joinpath folder (n @ e))"
proof (rule inside_joinpath[OF assms(2,3)])
  show "\<not> startswith (n @ e) ''/''"
    using assms(1,3,4) by (cases n) (auto simp: plain_relative_def startswith_slash)
  show "''..'' \<notin> set (butlast (split_on (CHR ''/'') n))"
    using assms(1) split_on_nonempty[of "CHR ''/''" n]
    by (auto simp: plain_relative_def dest: in_set_butlastD)
qed

lemma inside_joinpath_ending:
  assumes "plain_relative n" and "endswith n e" and "CHR ''/'' \<notin> set e" and "3 \<le> length e"
  shows "inside folder (joinpath folder n)"
proof -
  define m where "m = take (length n - length e) n"
  have n: "n = m @ e"
    using assms(2) by (simp add: endswith_def m_def) (metis append_take_drop_id)
  have sp: "split_on (CHR ''/'') n =
      butlast (split_on (CHR ''/'') m) @ [last (split_on (CHR ''/'') m) @ e]"
    unfolding n by (rule split_on_append[OF assms(3)])
  have "''..'' \<notin> set (butlast (split_on (CHR ''/'') m))"
    using assms(1) unfolding plain_relative_def sp by simp
  moreover have "\<not> startswith (m @ e) ''/''"
    using assms(1) n by (simp add: plain_relative_def)
  ultimately show ?thesis
    unfolding n by (rule inside_joinpath[OF assms(3,4), rotated])
qed

lemma name_stem_subset: "set (name_stem n) \<subseteq> set n"
  by (auto simp: name_stem_def split: option.splits dest: in_set_takeD)

lemma path_stem_no_slash: "CHR ''/'' \<notin> set (path_stem (PurePath s))"
proof -
  have "CHR ''/'' \<notin> set (path_name (PurePath s))"
  proof (cases "parts (PurePath s) = []")
    case True
    then show ?thesis by (simp add: path_name_def)
  next
    case False
    then have "last (parts (PurePath s)) \<in> set (split_on (CHR ''/'') s)"
      using last_in_set[OF False] by (auto simp: PurePath_def)
    then show ?thesis
      using False split_on_pieces by (simp add: path_name_def)
  qed
  then show ?thesis
    using name_stem_subset by (auto simp: path_stem_def)
qed

lemma joinpath_plain_name:
  assumes "CHR ''/'' \<notin> set n" and "3 \<le> length n"
  shows "joinpath folder n = child folder n"
proof -
  have "n \<noteq> []" "n \<noteq> ''.''" "\<not> startswith n ''/''"
    using assms by (cases n; auto)+
  then show ?thesis
    by (simp add: joinpath_def PurePath_def child_def split_on_no_sep[OF assms(1)] Let_def)
qed

lemma inside_child: "n \<noteq> ''..'' \<Longrightarrow> inside folder (child folder n)"
  by (simp add: inside_def child_def)

lemma ThumbnailExtractor_fields:
  assumes "ThumbnailExtractor w folder fmt = Inr self"
  shows "output_folder self = PurePath folder"
    and "image_format self = str_lower w fmt"
    and "image_format self = ''jpeg'' \<or> image_format self = ''png''"
    and "file_extension self = (if image_format self = ''jpeg'' then ''jpg'' else ''png'')"
  using assms by (auto simp: ThumbnailExtractor_def Let_def split: if_splits)

lemma default_name_inside:
  assumes "e = ''jpg'' \<or> e = ''png''"
  shows "joinpath folder (path_stem (PurePath s) @ ''_thumbnail.'' @ e)
           = child folder (path_stem (PurePath s) @ ''_thumbnail.'' @ e)"
    and "inside folder (child folder (path_stem (PurePath s) @ ''_thumbnail.'' @ e))"
proof -
  have ns: "CHR ''/'' \<notin> set (path_stem (PurePath s) @ ''_thumbnail.'' @ e)"
    using assms path_stem_no_slash[of s] by auto
  show "joinpath folder (path_stem (PurePath s) @ ''_thumbnail.'' @ e)
           = child folder (path_stem (PurePath s) @ ''_thumbnail.'' @ e)"
    using assms by (intro joinpath_plain_name[OF ns]) auto
  have "path_stem (PurePath s) @ ''_thumbnail.'' @ e \<noteq> ''..''"
    using assms by (auto simp: append_eq_Cons_conv)
  then show "inside folder (child folder (path_stem (PurePath s) @ ''_thumbnail.'' @ e))"
    by (rule inside_child)
qed

lemma output_name_inside:
  assumes "file_extension self = ''jpg'' \<or> file_extension self = ''png''"
    and "output_name = None \<or> (\<exists>n. output_name = Some n \<and> plain_relative n)"
  shows "inside (output_folder self)
           (joinpath (output_folder self) (output_name_for self (PurePath s) output_name))"
proof (cases output_name)
  case None
  then show ?thesis
    using default_name_inside[OF assms(1), of "output_folder self" s]
    by (simp add: output_name_for_def)
next
  case (Some n)
  then have pr: "plain_relative n"
    using assms(2) by simp
  show ?thesis
  proof (cases "endswith n ''.jpg'' \<or> endswith n ''.jpeg'' \<or> endswith n ''.png''")
    case True
    then show ?thesis
      using Some inside_joinpath_ending[OF pr, of _ "output_folder self"]
      by (auto simp: output_name_for_def)
  next
    case False
    have "inside (output_folder self) (joinpath (output_folder self) (n @ ''.'' @ file_extension self))"
      using assms(1) by (intro inside_joinpath_appended[OF pr]) auto
    then show ?thesis
      using Some False by (simp add: output_name_for_def)
  qed
qed

lemma ff_output_name_inside:
  assumes "output_name = None \<or> (\<exists>n. output_name = Some n \<and> plain_relative n)"
  shows "inside folder (joinpath folder (ff_output_name_for (PurePath s) output_name))"
proof (cases output_name)
  case None
  then show ?thesis
    using default_name_inside[of "''jpg''" folder s]
    by (simp add: ff_output_name_for_def)
next
  case (Some n)
  then have pr: "plain_relative n"
    using assms by simp
  show ?thesis
  proof (cases "endswith n ''.jpg'' \<or> endswith n ''.png''")
    case True
    then show ?thesis
      using Some inside_joinpath_ending[OF pr, of _ folder]
      by (auto simp: ff_output_name_for_def)
  next
    case False
    have "inside folder (joinpath folder (n @ ''.jpg''))"
      by (intro inside_joinpath_appended[OF pr]) auto
    then show ?thesis
      using Some False by (simp add: ff_output_name_for_def)
  qed
qed

subsection \<open>The concrete worlds, evaluated\<close>

lemmas demo_path_simps =
  videos_def child_def PurePath_def path_suffix_def path_stem_def path_name_def
  name_suffix_def name_stem_def rfind_def lower_def lower_char_def SUPPORTED_FORMATS_def

lemmas demo_eval_simps =
  demo_world_def demo_extractor_def demo_ffmpeg_extractor_def demo_path_simps
  extract_thumbnail_def try_block_def seek_and_save_def output_name_for_def
  ff_extract_thumbnail_def get_video_duration_def duration_of_def py_in_def py_getitem_def
  py_float_def probe_handles_def ffmpeg_step_def timestamp_of_def py_sub1_def py_max0_def
  py_le0_def py_eq0_def py_int_def trunc_def target_frame_def ff_output_name_for_def
  joinpath_def endswith_def upper_def upper_char_def glob_def video_files_def Let_def

lemma demo_folder:
  "path_exists demo_world videos = Inr True" "is_dir demo_world videos = Inr True"
  by (simp_all add: demo_world_def)

lemma demo_video_files:
  "video_files demo_world videos =
     [child videos ''a.mp4'', child videos ''b.avi'', child videos ''c.MOV'',
      child videos ''bad.mkv'']"
  by (simp add: demo_eval_simps)

lemma demo_cv_results:
  "extract_thumbnail demo_world demo_extractor (child videos ''a.mp4'') None =
     ([VideoCapture (child videos ''a.mp4'') True, CapSet 271, CapRead,
       Imwrite (Path False [''thumbnails'', ''a_thumbnail.jpg'']) (IMWRITE_JPEG_QUALITY 95),
       Print (SavedThumbnail (Path False [''thumbnails'', ''a_thumbnail.jpg''])),
       CapRelease], Inr True)"
  "snd (extract_thumbnail demo_world demo_extractor (child videos ''b.avi'') None) = Inr True"
  "snd (extract_thumbnail demo_world demo_extractor (child videos ''c.MOV'') None) = Inr True"
  "extract_thumbnail demo_world demo_extractor (child videos ''bad.mkv'') None =
     ([VideoCapture (child videos ''bad.mkv'') False,
       Print (CouldNotOpen (child videos ''bad.mkv''))], Inr False)"
  by (simp_all add: demo_eval_simps)

lemma demo_ff_results:
  "ff_extract_thumbnail demo_world demo_ffmpeg_extractor (child videos ''a.mp4'') None 2 =
     ([RunFFprobe (child videos ''a.mp4''),
       RunFFmpeg (Fin (901 / 100)) (child videos ''a.mp4'') 2
         (Path False [''thumbnails'', ''a_thumbnail.jpg'']),
       Print (SavedThumbnail (Path False [''thumbnails'', ''a_thumbnail.jpg'']))], Inr True)"
  "snd (ff_extract_thumbnail demo_world demo_ffmpeg_extractor (child videos ''b.avi'') None 2)
     = Inr True"
  "snd (ff_extract_thumbnail demo_world demo_ffmpeg_extractor (child videos ''c.MOV'') None 2)
     = Inr True"
  "ff_extract_thumbnail demo_world demo_ffmpeg_extractor (child videos ''bad.mkv'') None 2 =
     ([RunFFprobe (child videos ''bad.mkv''),
       Print (ErrorGettingDuration (CalledProcessError ''moov atom not found'')),
       Print (CouldNotDetermineDuration ''bad.mkv'')], Inr False)"
  by (simp_all add: demo_eval_simps)

lemma demo_process_folder:
  "snd (process_folder demo_world demo_extractor videos) = Inr (3, 1)"
  unfolding process_folder_def
  by (subst folder_run_returns(1)[OF demo_folder])
     (auto simp: demo_video_files demo_cv_results)

lemma demo_ff_process_folder:
  "snd (ff_process_folder demo_world demo_ffmpeg_extractor videos) = Inr (3, 1)"
  unfolding ff_process_folder_def
  by (subst folder_run_returns(1)[OF demo_folder])
     (auto simp: demo_video_files demo_ff_results)

lemma caseless_results:
  "extract_thumbnail caseless_world demo_extractor (child videos ''a.mp4'') None =
     ([VideoCapture (child videos ''a.mp4'') True, CapSet 271, CapRead,
       Imwrite (Path False [''thumbnails'', ''a_thumbnail.jpg'']) (IMWRITE_JPEG_QUALITY 95),
       Print (SavedThumbnail (Path False [''thumbnails'', ''a_thumbnail.jpg''])),
       CapRelease], Inr True)"
  "ff_extract_thumbnail caseless_world demo_ffmpeg_extractor (child videos ''a.mp4'') None 2 =
     ([RunFFprobe (child videos ''a.mp4''),
       RunFFmpeg (Fin (901 / 100)) (child videos ''a.mp4'') 2
         (Path False [''thumbnails'', ''a_thumbnail.jpg'']),
       Print (SavedThumbnail (Path False [''thumbnails'', ''a_thumbnail.jpg'']))], Inr True)"
  by (simp_all add: caseless_world_def demo_eval_simps)

lemma caseless_folder:
  "path_exists caseless_world videos = Inr True" "is_dir caseless_world videos = Inr True"
  "video_files caseless_world videos = [child videos ''a.mp4'', child videos ''a.mp4'']"
  by (simp_all add: caseless_world_def demo_eval_simps)

subsection \<open>The two targets\<close>

lemma frame_offset_bound:
  assumes "0 < F" and "0 < N"
  shows "\<bar>real_of_int (target_frame N (trunc F)) / F - max 0 (real_of_int N / F - 1)\<bar> \<le> 1 / F"
proof -
  let ?k = "\<lfloor>F\<rfloor>"
  have k: "trunc F = ?k"
    using assms by (simp add: trunc_def)
  have k1: "real_of_int ?k \<le> F" and k2: "F < real_of_int ?k + 1"
    by linarith+
  have ts: "max 0 (real_of_int N / F - 1) = max 0 (real_of_int N - F) / F"
    using assms by (simp add: max_def field_simps)
  have tf: "real_of_int (target_frame N ?k) = max 0 (real_of_int N - real_of_int ?k)"
    by (simp add: target_frame_def max_def)
  have gen: "\<bar>max 0 (a - b) - max 0 (a - c)\<bar> \<le> 1" if "b \<le> c" "c < b + 1" for a b c :: real
    using that by (auto simp: max_def abs_if)
  have "\<bar>max 0 (real_of_int N - real_of_int ?k) - max 0 (real_of_int N - F)\<bar> \<le> 1"
    by (rule gen[OF k1 k2])
  then have "\<bar>max 0 (real_of_int N - real_of_int ?k) - max 0 (real_of_int N - F)\<bar> / F \<le> 1 / F"
    using assms by (simp add: divide_right_mono)
  moreover have "\<bar>max 0 (real_of_int N - real_of_int ?k) - max 0 (real_of_int N - F)\<bar> / F
      = \<bar>max 0 (real_of_int N - real_of_int ?k) / F - max 0 (real_of_int N - F) / F\<bar>"
    using assms by (simp add: diff_divide_distrib[symmetric] abs_divide)
  ultimately show ?thesis
    by (simp add: k ts tf)
qed

text \<open>
  Claim C1. For a video with frame rate \<open>F > 0\<close>, \<open>N > 0\<close> frames and duration
  \<open>D = N / F\<close> seconds, the decode backend's target frame \<open>max(0, N - int(F))\<close>, taken
  as the time \<open>target_frame / F\<close>, and the process backend's timestamp
  \<open>max(0, D - 1.0)\<close> differ by at most the duration \<open>1 / F\<close> of one frame. (Numbers
  are reals here: the rounding of the float subtraction is not modelled.)
\<close>

theorem C1_targets_within_one_frame:
  assumes "0 < F" and "0 < N"
  shows "\<exists>k t. py_int (Fin F) = Inr k \<and>
           timestamp_of (Fin (real_of_int N / F)) = Fin t \<and>
           t = max 0 (real_of_int N / F - 1) \<and>
           \<bar>real_of_int (target_frame N k) / F - t\<bar> \<le> 1 / F"
proof -
  have "timestamp_of (Fin (real_of_int N / F)) = Fin (max 0 (real_of_int N / F - 1))"
    by (simp add: timestamp_of_def py_sub1_def py_max0_def max_def)
  moreover have "py_int (Fin F) = Inr (trunc F)"
    by (simp add: py_int_def)
  ultimately show ?thesis
    using frame_offset_bound[OF assms] by blast
qed

theorem C1_targets_within_one_frame_witness:
  "(0::real) < 2997 / 100 \<and> (0::int) < 300 \<and>
   py_int (Fin (2997 / 100)) = Inr 29 \<and>
   target_frame 300 29 = 271 \<and>
   timestamp_of (Fin (real_of_int 300 / (2997 / 100))) = Fin (27003 / 2997) \<and>
   \<bar>real_of_int 271 / (2997 / 100) - 27003 / 2997\<bar> \<le> 1 / (2997 / 100)"
  using C1_targets_within_one_frame [of "2997 / 100" 300]
  by (simp add: py_int_def trunc_def target_frame_def timestamp_of_def py_sub1_def py_max0_def)

subsection \<open>The decode backend's seek\<close>

text \<open>
  Claim C2 as stated fails: the code computes \<^verbatim>\<open>int(fps)\<close>, which truncates, where the
  claim rounds. At 29.97 frames per second and 300 frames the claim's target is frame
  270 and the code seeks to frame 271.
\<close>

theorem C2_round_counterexample:
  "cap_get_fps demo_world (child videos ''a.mp4'') = Inr (Fin (2997 / 100)) \<and>
   cap_get_frame_count demo_world (child videos ''a.mp4'') = Inr (Fin 300) \<and>
   spec_target_frame 300 (2997 / 100) = 270 \<and>
   seeks (fst (extract_thumbnail demo_world demo_extractor (child videos ''a.mp4'') None))
     = [271]"
  by (simp add: demo_cv_results spec_target_frame_def round_def) (simp add: demo_world_def)

text \<open>
  Claim C2, amended. For a video that exists, has a supported extension and opens, with
  a finite frame rate \<open>fps\<close> and \<open>total_frames = int(frame count)\<close>: when both are
  non-zero the decode backend seeks once, to frame \<open>max(0, total_frames - int(fps))\<close>,
  where \<open>int\<close> truncates toward zero; when either is zero the extraction fails, after
  the message on the invalid properties and with the capture released.
\<close>

theorem C2_decode_seek_target:
  assumes "path_exists w p = Inr True"
    and "str_lower w (path_suffix p) \<in> set SUPPORTED_FORMATS"
    and "cap_isOpened w p"
    and "cap_get_fps w p = Inr (Fin fps)"
    and "cap_get_frame_count w p = Inr c"
    and "py_int c = Inr total_frames"
  shows "(total_frames \<noteq> 0 \<and> fps \<noteq> 0 \<longrightarrow>
            seeks (fst (extract_thumbnail w self p n)) = [max 0 (total_frames - trunc fps)]) \<and>
         (total_frames = 0 \<or> fps = 0 \<longrightarrow>
            extract_thumbnail w self p n =
              ([VideoCapture p True, Print (InvalidProperties (path_name p)), CapRelease],
               Inr False))"
proof -
  have tb: "try_block w self p n =
      (if total_frames = 0 \<or> fps = 0
       then ([Print (InvalidProperties (path_name p))], Inr False)
       else seek_and_save w self p n (target_frame total_frames (trunc fps)))"
    using assms by (simp add: try_block_def py_eq0_def py_int_def)
  show ?thesis
  proof (cases "total_frames = 0 \<or> fps = 0")
    case True
    then show ?thesis
      using assms tb by (simp add: extract_thumbnail_def)
  next
    case False
    obtain t r where sr:
      "seek_and_save w self p n (target_frame total_frames (trunc fps)) = (t, r)"
      by (cases "seek_and_save w self p n (target_frame total_frames (trunc fps))")
    have "seeks t = [target_frame total_frames (trunc fps)]"
      using seeks_seek_and_save[of w self p n "target_frame total_frames (trunc fps)"] sr
      by simp
    then show ?thesis
      using assms tb False sr
      by (cases r) (simp_all add: extract_thumbnail_def seeks_append target_frame_def)
  qed
qed

theorem C2_decode_seek_target_witness:
  "path_exists demo_world (child videos ''b.avi'') = Inr True \<and>
   str_lower demo_world (path_suffix (child videos ''b.avi'')) \<in> set SUPPORTED_FORMATS \<and>
   cap_isOpened demo_world (child videos ''b.avi'') \<and>
   cap_get_fps demo_world (child videos ''b.avi'') = Inr (Fin (2997 / 100)) \<and>
   cap_get_frame_count demo_world (child videos ''b.avi'') = Inr (Fin 300) \<and>
   py_int (Fin 300) = Inr 300 \<and>
   seeks (fst (extract_thumbnail demo_world demo_extractor (child videos ''b.avi'') None))
     = [max 0 (300 - trunc (2997 / 100))] \<and>
   max 0 (300 - trunc (2997 / 100)) = 271"
  using C2_decode_seek_target [of demo_world "child videos ''b.avi''" "2997 / 100" "Fin 300"
      300 demo_extractor None]
  by (simp add: demo_world_def demo_path_simps py_int_def trunc_def)

subsection \<open>The process backend's timestamp\<close>

text \<open>
  Claim C3. For a video that exists, has a supported extension and whose probed
  duration is a finite \<open>d > 0\<close>, the process backend runs ffmpeg once, with the seek
  timestamp \<open>max(0, d - 1.0)\<close>; the timestamp is never negative and is exactly 0 when
  \<open>d < 1\<close>; and the extraction succeeds exactly when that run of ffmpeg returns and
  the output file exists afterwards, so a short video alone does not make it fail. The
  decode backend's target frame is clamped the same way: it is never negative, and is 0
  when the video has no more frames than one second holds.
\<close>

theorem C3_process_timestamp:
  assumes "path_exists w p = Inr True"
    and "str_lower w (path_suffix p) \<in> set SUPPORTED_FORMATS"
    and "get_video_duration w p = (t, Inr (Some (Fin d)))"
    and "0 < d"
  shows "\<exists>ts out. timestamp_of (Fin d) = Fin ts \<and> ts = max 0 (d - 1) \<and> 0 \<le> ts \<and>
           (d < 1 \<longrightarrow> ts = 0) \<and>
           out = joinpath (ff_output_folder self) (ff_output_name_for p n) \<and>
           filter is_run (fst (ff_extract_thumbnail w self p n q))
             = [RunFFprobe p, RunFFmpeg (Fin ts) p q out] \<and>
           snd (ff_extract_thumbnail w self p n q)
             = Inr (run_ffmpeg w (Fin ts) p q out = None \<and>
                    exists_after_ffmpeg w out = Inr True) \<and>
           0 \<le> target_frame total_frames int_fps \<and>
           (total_frames \<le> int_fps \<longrightarrow> target_frame total_frames int_fps = 0)"
proof -
  let ?ts = "max 0 (d - 1)"
  let ?out = "joinpath (ff_output_folder self) (ff_output_name_for p n)"
  have ts: "timestamp_of (Fin d) = Fin ?ts"
    by (simp add: timestamp_of_def py_sub1_def py_max0_def max_def)
  have t: "t = [RunFFprobe p]"
    using assms(3) by (rule get_video_duration_trace)
  obtain t' r where st: "ffmpeg_step w p (Fin ?ts) q ?out = (t', r)"
    by (cases "ffmpeg_step w p (Fin ?ts) q ?out")
  have ex: "ff_extract_thumbnail w self p n q = (t @ t', r)"
    using assms st ts by (simp add: ff_extract_thumbnail_def py_le0_def Let_def)
  have "filter is_run t' = [RunFFmpeg (Fin ?ts) p q ?out]"
    using ffmpeg_step_runs[of w p "Fin ?ts" q ?out] st by simp
  moreover have "r = Inr (run_ffmpeg w (Fin ?ts) p q ?out = None \<and>
      exists_after_ffmpeg w ?out = Inr True)"
    using ffmpeg_step_result[of w p "Fin ?ts" q ?out] st by simp
  ultimately show ?thesis
    using ts ex t by (simp add: is_run_def target_frame_def)
qed

theorem C3_process_timestamp_witness:
  "path_exists short_world (child videos ''a.mp4'') = Inr True \<and>
   str_lower short_world (path_suffix (child videos ''a.mp4'')) \<in> set SUPPORTED_FORMATS \<and>
   get_video_duration short_world (child videos ''a.mp4'')
     = ([RunFFprobe (child videos ''a.mp4'')], Inr (Some (Fin (1 / 2)))) \<and>
   (0::real) < 1 / 2 \<and> (1::real) / 2 < 1 \<and>
   timestamp_of (Fin (1 / 2)) = Fin 0 \<and>
   filter is_run (fst (ff_extract_thumbnail short_world demo_ffmpeg_extractor
                         (child videos ''a.mp4'') None 2))
     = [RunFFprobe (child videos ''a.mp4''),
        RunFFmpeg (Fin 0) (child videos ''a.mp4'') 2
          (Path False [''thumbnails'', ''a_thumbnail.jpg''])] \<and>
   snd (ff_extract_thumbnail short_world demo_ffmpeg_extractor (child videos ''a.mp4'') None 2)
     = Inr True \<and>
   target_frame 15 30 = 0 \<and>
   seeks (fst (extract_thumbnail short_world demo_extractor (child videos ''a.mp4'') None))
     = [0] \<and>
   snd (extract_thumbnail short_world demo_extractor (child videos ''a.mp4'') None) = Inr True"
proof -
  have gd: "get_video_duration short_world (child videos ''a.mp4'')
     = ([RunFFprobe (child videos ''a.mp4'')], Inr (Some (Fin (1 / 2))))"
    by (simp add: get_video_duration_def short_world_def demo_world_def demo_path_simps
        duration_of_def py_in_def py_getitem_def py_float_def)
  have ex: "path_exists short_world (child videos ''a.mp4'') = Inr True"
    by (simp add: short_world_def demo_world_def demo_path_simps)
  have su: "str_lower short_world (path_suffix (child videos ''a.mp4''))
      \<in> set SUPPORTED_FORMATS"
    by (simp add: short_world_def demo_world_def demo_path_simps)
  have out: "joinpath (ff_output_folder demo_ffmpeg_extractor)
      (ff_output_name_for (child videos ''a.mp4'') None)
        = Path False [''thumbnails'', ''a_thumbnail.jpg'']"
    by (simp add: joinpath_def demo_ffmpeg_extractor_def ff_output_name_for_def
        demo_path_simps)
  have rf: "run_ffmpeg short_world ss i q out = None"
    "exists_after_ffmpeg short_world out = Inr True" for ss i q out
    by (simp_all add: short_world_def demo_world_def)
  have cv: "extract_thumbnail short_world demo_extractor (child videos ''a.mp4'') None =
     ([VideoCapture (child videos ''a.mp4'') True, CapSet 0, CapRead,
       Imwrite (Path False [''thumbnails'', ''a_thumbnail.jpg'']) (IMWRITE_JPEG_QUALITY 95),
       Print (SavedThumbnail (Path False [''thumbnails'', ''a_thumbnail.jpg''])),
       CapRelease], Inr True)"
    by (simp add: short_world_def demo_eval_simps)
  show ?thesis
    using C3_process_timestamp [OF ex su gd, of demo_ffmpeg_extractor None 2 15 30] gd ex su
    by (simp add: out rf cv)
qed

subsection \<open>Exceptions of the probe\<close>

text \<open>
  Claim C4 does not hold of the process backend. \<^verbatim>\<open>get_video_duration\<close> handles
  \<open>CalledProcessError\<close>, \<open>JSONDecodeError\<close> and \<open>ValueError\<close> only, and
  \<^verbatim>\<open>extract_thumbnail\<close> calls it outside its \<^verbatim>\<open>try\<close> statement. Where ffprobe cannot be
  started, \<^verbatim>\<open>subprocess.run\<close> raises \<open>FileNotFoundError\<close>, which leaves the single-file
  extraction and then the folder run, after its first file.
\<close>

theorem C4_probe_exception_propagates:
  "path_exists no_ffprobe_world (child videos ''a.mp4'') = Inr True \<and>
   run_ffprobe no_ffprobe_world (child videos ''a.mp4'') = Inl FileNotFoundError \<and>
   ff_extract_thumbnail no_ffprobe_world demo_ffmpeg_extractor (child videos ''a.mp4'') None 2
     = ([RunFFprobe (child videos ''a.mp4'')], Inl FileNotFoundError) \<and>
   ff_process_folder no_ffprobe_world demo_ffmpeg_extractor videos
     = ([Print (Found 4), Print (OutputFolder (PurePath ''thumbnails'')),
         Print (Processing ''a.mp4''), RunFFprobe (child videos ''a.mp4'')],
        Inl FileNotFoundError)"
  by (simp add: no_ffprobe_world_def demo_world_def ff_extract_thumbnail_def
      get_video_duration_def probe_handles_def demo_path_simps
      ff_process_folder_def folder_run_def video_files_def glob_def endswith_def upper_def
      upper_char_def demo_ffmpeg_extractor_def)

subsection \<open>The order of the checks\<close>

text \<open>
  When \<^verbatim>\<open>exists()\<close> answers, both backends check in order and stop at the first failure:
  a path that is not there gives failure after the one message, with no backend call;
  so does a path that is there and whose lower-cased suffix is not in
  \<^verbatim>\<open>SUPPORTED_FORMATS\<close>; any other path reaches the backend, whose first call follows.
  When \<^verbatim>\<open>exists()\<close> raises, the exception leaves the function.
\<close>

lemma preconditions_short_circuit:
  "(path_exists w p = Inr False \<longrightarrow>
      extract_thumbnail w self p n = ([Print (VideoNotFound p)], Inr False) \<and>
      ff_extract_thumbnail w fself p n q = ([Print (VideoNotFound p)], Inr False)) \<and>
   (path_exists w p = Inr True \<and> str_lower w (path_suffix p) \<notin> set SUPPORTED_FORMATS \<longrightarrow>
      extract_thumbnail w self p n = ([Print (UnsupportedFormat (path_name p))], Inr False) \<and>
      ff_extract_thumbnail w fself p n q
        = ([Print (UnsupportedFormat (path_name p))], Inr False)) \<and>
   (path_exists w p = Inr True \<and> str_lower w (path_suffix p) \<in> set SUPPORTED_FORMATS \<longrightarrow>
      hd (fst (extract_thumbnail w self p n)) = VideoCapture p (cap_isOpened w p) \<and>
      hd (fst (ff_extract_thumbnail w fself p n q)) = RunFFprobe p) \<and>
   (path_exists w p = Inl e \<longrightarrow>
      extract_thumbnail w self p n = ([], Inl e) \<and>
      ff_extract_thumbnail w fself p n q = ([], Inl e))"
proof -
  have b: "hd (fst (get_video_duration w p)) = RunFFprobe p"
    "fst (get_video_duration w p) \<noteq> []"
    by (simp_all add: get_video_duration_def split: sum.splits option.splits)
  have c: "path_exists w p = Inr True \<Longrightarrow>
      str_lower w (path_suffix p) \<in> set SUPPORTED_FORMATS \<Longrightarrow>
      hd (fst (ff_extract_thumbnail w fself p n q)) = RunFFprobe p"
    using b
    by (cases "get_video_duration w p")
       (auto simp: ff_extract_thumbnail_def Let_def
          split: sum.splits option.splits prod.splits)
  have d: "path_exists w p = Inr True \<Longrightarrow>
      str_lower w (path_suffix p) \<in> set SUPPORTED_FORMATS \<Longrightarrow>
      hd (fst (extract_thumbnail w self p n)) = VideoCapture p (cap_isOpened w p)"
    by (cases "try_block w self p n")
       (auto simp: extract_thumbnail_def split: sum.splits)
  show ?thesis
    using c d by (simp add: extract_thumbnail_def ff_extract_thumbnail_def)
qed

text \<open>
  Claim C5 does not hold for every path that is not there. The test
  \<^verbatim>\<open>video_path.exists()\<close> (line 47, line 91 in the process backend) stands outside every
  \<^verbatim>\<open>try\<close>, and \<^verbatim>\<open>exists()\<close> raises \<open>OSError\<close> for a name of 304 characters, which is
  too long for the file system: the exception leaves the single-file extraction of both
  backends, where the claim says that it returns failure. No backend call is made.
\<close>

theorem C5_exists_raises_on_long_name:
  "length (path_name long_name) = 304 \<and>
   path_exists long_name_world long_name = Inl OSError \<and>
   extract_thumbnail long_name_world demo_extractor long_name None = ([], Inl OSError) \<and>
   ff_extract_thumbnail long_name_world demo_ffmpeg_extractor long_name None 2
     = ([], Inl OSError)"
proof -
  have n: "path_name long_name = replicate 300 (CHR ''a'') @ ''.mp4''"
    by (simp add: long_name_def child_def path_name_def)
  have e: "path_exists long_name_world long_name = Inl OSError"
    by (simp add: long_name_world_def n)
  show ?thesis
    by (simp add: n e extract_thumbnail_def ff_extract_thumbnail_def)
qed

subsection \<open>Where the thumbnail is written\<close>

text \<open>
  Claim C6 as stated fails for an output name that is a rooted path: \<^verbatim>\<open>pathlib\<close>'s
  \<^verbatim>\<open>/\<close> then drops the output folder. With the output folder \<^verbatim>\<open>thumbnails\<close> and the
  output name \<^verbatim>\<open>/tmp/x.jpg\<close>, both backends succeed and write \<^verbatim>\<open>/tmp/x.jpg\<close>.
\<close>

theorem C6_rooted_name_counterexample:
  "output_folder demo_extractor = Path False [''thumbnails''] \<and>
   snd (extract_thumbnail demo_world demo_extractor (PurePath ''videos/a.mp4'')
          (Some ''/tmp/x.jpg'')) = Inr True \<and>
   writes (fst (extract_thumbnail demo_world demo_extractor (PurePath ''videos/a.mp4'')
                  (Some ''/tmp/x.jpg''))) = [Path True [''tmp'', ''x.jpg'']] \<and>
   snd (ff_extract_thumbnail demo_world demo_ffmpeg_extractor (PurePath ''videos/a.mp4'')
          (Some ''/tmp/x.jpg'') 2) = Inr True \<and>
   writes (fst (ff_extract_thumbnail demo_world demo_ffmpeg_extractor
                  (PurePath ''videos/a.mp4'') (Some ''/tmp/x.jpg'') 2))
     = [Path True [''tmp'', ''x.jpg'']] \<and>
   \<not> inside (Path False [''thumbnails'']) (Path True [''tmp'', ''x.jpg''])"
  by (simp add: demo_eval_simps inside_def)

text \<open>
  Claim C6, amended. Let the extractor be built by the constructor, and let the output
  name be absent or a relative path with no \<^verbatim>\<open>..\<close> component. Then every successful
  single-file extraction, in either backend, writes one file, and that file lies inside
  the configured output folder. With no output name the file is
  \<^verbatim>\<open><stem>_thumbnail.<ext>\<close> directly in the output folder, where \<^verbatim>\<open><ext>\<close> is \<^verbatim>\<open>jpg\<close> for
  the format \<^verbatim>\<open>jpeg\<close> and \<^verbatim>\<open>png\<close> for \<^verbatim>\<open>png\<close> in the decode backend and \<^verbatim>\<open>jpg\<close> in the
  process backend. An explicit name that does not end with \<^verbatim>\<open>.jpg\<close>, \<^verbatim>\<open>.jpeg\<close> or
  \<^verbatim>\<open>.png\<close> (decode backend), with \<^verbatim>\<open>.jpg\<close> or \<^verbatim>\<open>.png\<close> (process backend), gets the
  default extension appended; any other explicit name is kept.
\<close>

theorem C6_output_inside_folder:
  assumes "ThumbnailExtractor w folder fmt = Inr self"
    and "output_name = None \<or> (\<exists>n. output_name = Some n \<and> plain_relative n)"
  shows "(snd (extract_thumbnail w self (PurePath s) output_name) = Inr True \<longrightarrow>
            (\<exists>out. writes (fst (extract_thumbnail w self (PurePath s) output_name)) = [out] \<and>
                   out = joinpath (output_folder self)
                           (output_name_for self (PurePath s) output_name) \<and>
                   inside (output_folder self) out)) \<and>
         (snd (ff_extract_thumbnail w fself (PurePath s) output_name q) = Inr True \<longrightarrow>
            (\<exists>out. writes (fst (ff_extract_thumbnail w fself (PurePath s) output_name q)) = [out] \<and>
                   out = joinpath (ff_output_folder fself)
                           (ff_output_name_for (PurePath s) output_name) \<and>
                   inside (ff_output_folder fself) out)) \<and>
         (output_name = None \<longrightarrow>
            joinpath (output_folder self) (output_name_for self (PurePath s) output_name)
              = child (output_folder self)
                  (path_stem (PurePath s) @ ''_thumbnail.'' @
                     (if str_lower w fmt = ''jpeg'' then ''jpg'' else ''png'')) \<and>
            joinpath (ff_output_folder fself) (ff_output_name_for (PurePath s) output_name)
              = child (ff_output_folder fself) (path_stem (PurePath s) @ ''_thumbnail.jpg'')) \<and>
         (\<forall>n. output_name = Some n \<longrightarrow>
            output_name_for self (PurePath s) output_name
              = (if endswith n ''.jpg'' \<or> endswith n ''.jpeg'' \<or> endswith n ''.png'' then n
                 else n @ ''.'' @ (if str_lower w fmt = ''jpeg'' then ''jpg'' else ''png'')) \<and>
            ff_output_name_for (PurePath s) output_name
              = (if endswith n ''.jpg'' \<or> endswith n ''.png'' then n else n @ ''.jpg''))"
proof -
  note f = ThumbnailExtractor_fields[OF assms(1)]
  have ext: "file_extension self = ''jpg'' \<or> file_extension self = ''png''"
    using f(3,4) by auto
  have ext2: "file_extension self = (if str_lower w fmt = ''jpeg'' then ''jpg'' else ''png'')"
    using f(2,4) by simp
  have a: "snd (extract_thumbnail w self (PurePath s) output_name) = Inr True \<longrightarrow>
            (\<exists>out. writes (fst (extract_thumbnail w self (PurePath s) output_name)) = [out] \<and>
                   out = joinpath (output_folder self)
                           (output_name_for self (PurePath s) output_name) \<and>
                   inside (output_folder self) out)"
    using extract_thumbnail_writes output_name_inside[OF ext assms(2)] by simp
  have b: "snd (ff_extract_thumbnail w fself (PurePath s) output_name q) = Inr True \<longrightarrow>
            (\<exists>out. writes (fst (ff_extract_thumbnail w fself (PurePath s) output_name q)) = [out] \<and>
                   out = joinpath (ff_output_folder fself)
                           (ff_output_name_for (PurePath s) output_name) \<and>
                   inside (ff_output_folder fself) out)"
    using ff_extract_thumbnail_writes ff_output_name_inside[OF assms(2)] by simp
  have c: "output_name = None \<longrightarrow>
            joinpath (output_folder self) (output_name_for self (PurePath s) output_name)
              = child (output_folder self)
                  (path_stem (PurePath s) @ ''_thumbnail.'' @
                     (if str_lower w fmt = ''jpeg'' then ''jpg'' else ''png'')) \<and>
            joinpath (ff_output_folder fself) (ff_output_name_for (PurePath s) output_name)
              = child (ff_output_folder fself) (path_stem (PurePath s) @ ''_thumbnail.jpg'')"
    using default_name_inside(1)[OF ext, of "output_folder self" s]
      default_name_inside(1)[of "''jpg''" "ff_output_folder fself" s] ext2
    by (simp add: output_name_for_def ff_output_name_for_def)
  have d: "\<forall>n. output_name = Some n \<longrightarrow>
            output_name_for self (PurePath s) output_name
              = (if endswith n ''.jpg'' \<or> endswith n ''.jpeg'' \<or> endswith n ''.png'' then n
                 else n @ ''.'' @ (if str_lower w fmt = ''jpeg'' then ''jpg'' else ''png'')) \<and>
            ff_output_name_for (PurePath s) output_name
              = (if endswith n ''.jpg'' \<or> endswith n ''.png'' then n else n @ ''.jpg'')"
    using ext2 by (simp add: output_name_for_def ff_output_name_for_def)
  show ?thesis
    using a b c d by blast
qed

theorem C6_output_inside_folder_witness:
  "ThumbnailExtractor demo_world ''thumbnails'' ''JPEG'' = Inr demo_extractor \<and>
   plain_relative ''posters/clip'' \<and>
   snd (extract_thumbnail demo_world demo_extractor (PurePath ''videos/a.mp4'') None)
     = Inr True \<and>
   writes (fst (extract_thumbnail demo_world demo_extractor (PurePath ''videos/a.mp4'') None))
     = [Path False [''thumbnails'', ''a_thumbnail.jpg'']] \<and>
   inside (output_folder demo_extractor) (Path False [''thumbnails'', ''a_thumbnail.jpg'']) \<and>
   snd (ff_extract_thumbnail demo_world demo_ffmpeg_extractor (PurePath ''videos/a.mp4'')
          (Some ''posters/clip'') 2) = Inr True \<and>
   writes (fst (ff_extract_thumbnail demo_world demo_ffmpeg_extractor
                  (PurePath ''videos/a.mp4'') (Some ''posters/clip'') 2))
     = [Path False [''thumbnails'', ''posters'', ''clip.jpg'']] \<and>
   inside (ff_output_folder demo_ffmpeg_extractor)
     (Path False [''thumbnails'', ''posters'', ''clip.jpg''])"
proof -
  have c: "ThumbnailExtractor demo_world ''thumbnails'' ''JPEG'' = Inr demo_extractor"
    by (simp add: ThumbnailExtractor_def demo_world_def demo_extractor_def PurePath_def
        lower_def lower_char_def)
  have r: "plain_relative ''posters/clip''"
    by (simp add: plain_relative_def)
  have d: "snd (extract_thumbnail demo_world demo_extractor (PurePath ''videos/a.mp4'') None)
      = Inr True"
    "joinpath (output_folder demo_extractor)
       (output_name_for demo_extractor (PurePath ''videos/a.mp4'') None)
      = Path False [''thumbnails'', ''a_thumbnail.jpg'']"
    by (simp_all add: demo_eval_simps)
  have f: "snd (ff_extract_thumbnail demo_world demo_ffmpeg_extractor
                  (PurePath ''videos/a.mp4'') (Some ''posters/clip'') 2) = Inr True"
    "joinpath (ff_output_folder demo_ffmpeg_extractor)
       (ff_output_name_for (PurePath ''videos/a.mp4'') (Some ''posters/clip''))
      = Path False [''thumbnails'', ''posters'', ''clip.jpg'']"
    by (simp_all add: demo_eval_simps)
  show ?thesis
    using C6_output_inside_folder [OF c, of None "''videos/a.mp4''"
        demo_ffmpeg_extractor 2, THEN conjunct1]
      C6_output_inside_folder [OF c, of "Some ''posters/clip''" "''videos/a.mp4''"
        demo_ffmpeg_extractor 2, THEN conjunct2, THEN conjunct1]
      c r d f
    by simp
qed

subsection \<open>The folder run\<close>

text \<open>
  Claim C7 does not hold of the process backend. The loop itself has no early exit, but
  an exception that leaves a single-file extraction leaves the loop, and the process
  backend's extraction lets the exceptions of the probe pass that its handler does not
  name. Where ffprobe cannot be started, the folder run ends with \<open>FileNotFoundError\<close>
  at its first file and extracts none of the four files. Where only the probe of
  \<^verbatim>\<open>a.mp4\<close> raises, the folder run ends there as well: \<^verbatim>\<open>b.avi\<close>, whose own extraction
  succeeds, is never probed, and no summary is returned.
\<close>

theorem C7_probe_exception_ends_folder_run:
  "video_files no_ffprobe_world videos =
     [child videos ''a.mp4'', child videos ''b.avi'', child videos ''c.MOV'',
      child videos ''bad.mkv''] \<and>
   filter backend_event (fst (ff_process_folder no_ffprobe_world demo_ffmpeg_extractor videos))
     = [RunFFprobe (child videos ''a.mp4'')] \<and>
   snd (ff_process_folder no_ffprobe_world demo_ffmpeg_extractor videos)
     = Inl FileNotFoundError \<and>
   video_files odd_probe_world videos =
     [child videos ''a.mp4'', child videos ''b.avi'', child videos ''c.MOV'',
      child videos ''bad.mkv''] \<and>
   ff_extract_thumbnail odd_probe_world demo_ffmpeg_extractor (child videos ''a.mp4'') None 2
     = ([RunFFprobe (child videos ''a.mp4'')], Inl TypeError) \<and>
   snd (ff_extract_thumbnail odd_probe_world demo_ffmpeg_extractor (child videos ''b.avi'')
          None 2) = Inr True \<and>
   filter backend_event (fst (ff_process_folder odd_probe_world demo_ffmpeg_extractor videos))
     = [RunFFprobe (child videos ''a.mp4'')] \<and>
   snd (ff_process_folder odd_probe_world demo_ffmpeg_extractor videos) = Inl TypeError"
proof -
  have v1: "video_files no_ffprobe_world videos =
     [child videos ''a.mp4'', child videos ''b.avi'', child videos ''c.MOV'',
      child videos ''bad.mkv'']"
    by (simp add: no_ffprobe_world_def demo_eval_simps)
  have v2: "video_files odd_probe_world videos =
     [child videos ''a.mp4'', child videos ''b.avi'', child videos ''c.MOV'',
      child videos ''bad.mkv'']"
    by (simp add: odd_probe_world_def demo_eval_simps)
  have f1: "path_exists no_ffprobe_world videos = Inr True"
    "is_dir no_ffprobe_world videos = Inr True"
    "path_exists odd_probe_world videos = Inr True"
    "is_dir odd_probe_world videos = Inr True"
    by (simp_all add: no_ffprobe_world_def odd_probe_world_def demo_world_def)
  have a1: "ff_extract_thumbnail no_ffprobe_world demo_ffmpeg_extractor
      (child videos ''a.mp4'') None 2
     = ([RunFFprobe (child videos ''a.mp4'')], Inl FileNotFoundError)"
    by (simp add: no_ffprobe_world_def demo_eval_simps)
  have a2: "ff_extract_thumbnail odd_probe_world demo_ffmpeg_extractor
      (child videos ''a.mp4'') None 2
     = ([RunFFprobe (child videos ''a.mp4'')], Inl TypeError)"
    by (simp add: odd_probe_world_def demo_eval_simps)
  have b2: "snd (ff_extract_thumbnail odd_probe_world demo_ffmpeg_extractor
      (child videos ''b.avi'') None 2) = Inr True"
    by (simp add: odd_probe_world_def demo_eval_simps)
  show ?thesis
    by (simp add: v1 v2 f1 a1 a2 b2 ff_process_folder_def folder_run_def backend_event_def)
qed

text \<open>
  Claim C8 does not hold where \<^verbatim>\<open>Path.glob\<close> ignores case: the patterns \<^verbatim>\<open>*.mp4\<close> and
  \<^verbatim>\<open>*.MP4\<close> then both match \<^verbatim>\<open>a.mp4\<close>, the list of video files holds it twice, and the
  folder run extracts it twice and counts it twice. (Where the glob compares case the
  list has no duplicates: lemma \<open>video_files_distinct\<close>.)
\<close>

theorem C8_caseless_glob_extracts_twice:
  "glob_case_sensitive caseless_world = False \<and>
   scandir caseless_world videos = [''a.mp4''] \<and>
   video_files caseless_world videos = [child videos ''a.mp4'', child videos ''a.mp4''] \<and>
   filter is_run (fst (ff_process_folder caseless_world demo_ffmpeg_extractor videos))
     = [RunFFprobe (child videos ''a.mp4''),
        RunFFmpeg (Fin (901 / 100)) (child videos ''a.mp4'') 2
          (Path False [''thumbnails'', ''a_thumbnail.jpg'']),
        RunFFprobe (child videos ''a.mp4''),
        RunFFmpeg (Fin (901 / 100)) (child videos ''a.mp4'') 2
          (Path False [''thumbnails'', ''a_thumbnail.jpg''])] \<and>
   snd (ff_process_folder caseless_world demo_ffmpeg_extractor videos) = Inr (2, 0) \<and>
   seeks (fst (process_folder caseless_world demo_extractor videos)) = [271, 271] \<and>
   snd (process_folder caseless_world demo_extractor videos) = Inr (2, 0)"
  by (simp add: caseless_folder process_folder_def ff_process_folder_def folder_run_def
      caseless_results is_run_def)
     (simp add: caseless_world_def)

text \<open>
  Claim C10. On an existing directory with at least one enumerated file, the summary
  \<open>(successful, failed)\<close> that a folder run of either backend returns has
  \<open>successful + failed\<close> equal to the number of enumerated files, with both counters
  non-negative. The decode backend's folder run returns one whenever \<^verbatim>\<open>exists()\<close>
  answers for every enumerated file; the process backend's does when, in addition, no
  probe raises an exception.
\<close>

theorem C10_summary_counts:
  assumes "path_exists w d = Inr True" and "is_dir w d = Inr True"
    and "video_files w d \<noteq> []"
  shows "(\<forall>s f. snd (process_folder w self d) = Inr (s, f) \<longrightarrow>
            s + f = int (length (video_files w d)) \<and> 0 \<le> s \<and> 0 \<le> f) \<and>
         (\<forall>s f. snd (ff_process_folder w fself d) = Inr (s, f) \<longrightarrow>
            s + f = int (length (video_files w d)) \<and> 0 \<le> s \<and> 0 \<le> f) \<and>
         ((\<forall>v \<in> set (video_files w d). \<exists>b. path_exists w v = Inr b) \<longrightarrow>
            (\<exists>s f. snd (process_folder w self d) = Inr (s, f))) \<and>
         ((\<forall>v \<in> set (video_files w d).
              (\<exists>b. path_exists w v = Inr b) \<and> (\<exists>r. snd (get_video_duration w v) = Inr r)) \<longrightarrow>
            (\<exists>s f. snd (ff_process_folder w fself d) = Inr (s, f)))"
proof -
  have a: "\<forall>s f. snd (process_folder w self d) = Inr (s, f) \<longrightarrow>
            s + f = int (length (video_files w d)) \<and> 0 \<le> s \<and> 0 \<le> f"
    unfolding process_folder_def using folder_run_sum[OF assms(1,2)] by blast
  have b: "\<forall>s f. snd (ff_process_folder w fself d) = Inr (s, f) \<longrightarrow>
            s + f = int (length (video_files w d)) \<and> 0 \<le> s \<and> 0 \<le> f"
    unfolding ff_process_folder_def using folder_run_sum[OF assms(1,2)] by blast
  have c: "(\<forall>v \<in> set (video_files w d). \<exists>b. path_exists w v = Inr b) \<longrightarrow>
            (\<exists>s f. snd (process_folder w self d) = Inr (s, f))"
  proof
    assume "\<forall>v \<in> set (video_files w d). \<exists>b. path_exists w v = Inr b"
    then have "\<forall>v \<in> set (video_files w d).
        \<exists>b. snd (extract_thumbnail w self v None) = Inr b"
      using extract_thumbnail_returns by blast
    then show "\<exists>s f. snd (process_folder w self d) = Inr (s, f)"
      unfolding process_folder_def
      using folder_run_returns(1)[OF assms(1,2),
          of "\<lambda>v. extract_thumbnail w self v None" "output_folder self"]
      by simp
  qed
  have e: "(\<forall>v \<in> set (video_files w d).
              (\<exists>b. path_exists w v = Inr b) \<and> (\<exists>r. snd (get_video_duration w v) = Inr r)) \<longrightarrow>
            (\<exists>s f. snd (ff_process_folder w fself d) = Inr (s, f))"
  proof
    assume "\<forall>v \<in> set (video_files w d).
              (\<exists>b. path_exists w v = Inr b) \<and> (\<exists>r. snd (get_video_duration w v) = Inr r)"
    then have "\<forall>v \<in> set (video_files w d).
        \<exists>b. snd (ff_extract_thumbnail w fself v None 2) = Inr b"
      using ff_extract_thumbnail_returns by blast
    then show "\<exists>s f. snd (ff_process_folder w fself d) = Inr (s, f)"
      unfolding ff_process_folder_def
      using folder_run_returns(1)[OF assms(1,2),
          of "\<lambda>v. ff_extract_thumbnail w fself v None 2" "ff_output_folder fself"]
      by simp
  qed
  show ?thesis
    by (rule conjI[OF a conjI[OF b conjI[OF c e]]])
qed

theorem C10_summary_counts_witness:
  "path_exists demo_world videos = Inr True \<and> is_dir demo_world videos = Inr True \<and>
   video_files demo_world videos \<noteq> [] \<and>
   length (video_files demo_world videos) = 4 \<and>
   snd (process_folder demo_world demo_extractor videos) = Inr (3, 1) \<and>
   snd (ff_process_folder demo_world demo_ffmpeg_extractor videos) = Inr (3, 1) \<and>
   (3::int) + 1 = 4"
proof -
  have ne: "video_files demo_world videos \<noteq> []"
    by (simp add: demo_video_files)
  note c10 = C10_summary_counts [OF demo_folder ne, of demo_extractor demo_ffmpeg_extractor]
  show ?thesis
    using c10 demo_process_folder demo_ff_process_folder
    by (simp add: demo_video_files demo_folder)
qed

subsection \<open>Release of the backend resources\<close>

text \<open>
  Claim C9. After every run of a single-file extraction, whatever its outcome, no
  backend resource is held: in the decode backend an opened capture is released by the
  last event of the run; the process backend's only backend calls are calls of
  \<^verbatim>\<open>subprocess.run\<close>, which are over when they return or raise.
\<close>

theorem C9_resources_released:
  "held 0 (fst (extract_thumbnail w self p n)) = 0 \<and>
   (VideoCapture p True \<in> set (fst (extract_thumbnail w self p n)) \<longrightarrow>
      last (fst (extract_thumbnail w self p n)) = CapRelease) \<and>
   held 0 (fst (ff_extract_thumbnail w fself p n q)) = 0 \<and>
   (\<forall>ev \<in> set (fst (ff_extract_thumbnail w fself p n q)). backend_event ev \<longrightarrow> is_run ev)"
proof -
  obtain t r where tb: "try_block w self p n = (t, r)"
    by (cases "try_block w self p n")
  have ht: "held k t = k" for k
    using held_try_block[of k w self p n] tb by simp
  have d1: "held 0 (fst (extract_thumbnail w self p n)) = 0"
    by (cases r) (simp_all add: extract_thumbnail_def tb held_append ht split: sum.splits)
  have d2: "VideoCapture p True \<in> set (fst (extract_thumbnail w self p n)) \<longrightarrow>
      last (fst (extract_thumbnail w self p n)) = CapRelease"
    by (cases r) (simp_all add: extract_thumbnail_def tb split: sum.splits)
  have f2: "\<forall>ev \<in> set (fst (ff_extract_thumbnail w fself p n q)).
      backend_event ev \<longrightarrow> is_run ev"
    using ff_extract_events by blast
  have f1: "held 0 (fst (ff_extract_thumbnail w fself p n q)) = 0"
    by (rule held_runs) (use ff_extract_events in blast)
  show ?thesis
    using d1 d2 f1 f2 by blast
qed

theorem C9_resources_released_witness:
  "extract_thumbnail read_error_world demo_extractor (child videos ''a.mp4'') None
     = ([VideoCapture (child videos ''a.mp4'') True, CapSet 271, CapRead,
         Print (ErrorProcessing ''a.mp4'' CvError), CapRelease], Inr False) \<and>
   held 0 (fst (extract_thumbnail read_error_world demo_extractor (child videos ''a.mp4'')
                  None)) = 0 \<and>
   last (fst (extract_thumbnail read_error_world demo_extractor (child videos ''a.mp4'') None))
     = CapRelease \<and>
   held 0 (fst (ff_extract_thumbnail read_error_world demo_ffmpeg_extractor
                  (child videos ''bad.mkv'') None 2)) = 0"
proof -
  have e: "extract_thumbnail read_error_world demo_extractor (child videos ''a.mp4'') None
     = ([VideoCapture (child videos ''a.mp4'') True, CapSet 271, CapRead,
         Print (ErrorProcessing ''a.mp4'' CvError), CapRelease], Inr False)"
    by (simp add: read_error_world_def demo_eval_simps)
  show ?thesis
    using C9_resources_released [of read_error_world demo_extractor "child videos ''a.mp4''"
        None demo_ffmpeg_extractor 2]
      C9_resources_released [of read_error_world demo_extractor "child videos ''bad.mkv''"
        None demo_ffmpeg_extractor 2]
    by (simp add: e)
qed

end
